theory Spec2Isabelle
  imports Main "HOL-Library.Sublist" "HOL-Library.AList"
begin

section \<open>Python strings and integers\<close>

text \<open>
  The program under verification is \<^verbatim>\<open>src/python/condor_client.py\<close>. Python strings are
  modelled as \<^typ>\<open>string\<close>, the substring test \<^verbatim>\<open>a in b\<close> as \<^term>\<open>sublist a b\<close>, and
  every exception the modelled code can raise as a value of \<open>py_error\<close>.
\<close>

datatype py_error = KeyError | TypeError | AttributeError | IndexError | ValueError | OSError

text \<open>\<^verbatim>\<open>s.split(c)\<close> for a one-character separator: never returns the empty list.\<close>

fun split_on :: "char \<Rightarrow> string \<Rightarrow> string list" where
  "split_on c [] = [[]]"
| "split_on c (x # xs) =
     (if x = c then [] # split_on c xs
      else (case split_on c xs of [] \<Rightarrow> [[x]] | y # ys \<Rightarrow> (x # y) # ys))"

text \<open>\<^verbatim>\<open>sep.join(parts)\<close>.\<close>

fun join_with :: "string \<Rightarrow> string list \<Rightarrow> string" where
  "join_with sep [] = []"
| "join_with sep [x] = x"
| "join_with sep (x # y # ys) = x @ sep @ join_with sep (y # ys)"

definition digit_char :: "nat \<Rightarrow> char" where
  "digit_char n = ''0123456789'' ! n"

definition is_digit :: "char \<Rightarrow> bool" where
  "is_digit c = (c \<in> set ''0123456789'')"

definition digit_val :: "char \<Rightarrow> nat" where
  "digit_val c = of_char c - 48"

definition dec_val :: "string \<Rightarrow> nat" where
  "dec_val s = foldl (\<lambda>a c. 10 * a + digit_val c) 0 s"

text \<open>\<^verbatim>\<open>str(n)\<close> for a non-negative integer, and for any integer.\<close>

fun str_nat :: "nat \<Rightarrow> string" where
  "str_nat n = (if n < 10 then [digit_char n] else str_nat (n div 10) @ [digit_char (n mod 10)])"

declare str_nat.simps [simp del]

definition str_int :: "int \<Rightarrow> string" where
  "str_int i = (if i < 0 then CHR ''-'' # str_nat (nat (- i)) else str_nat (nat i))"

text \<open>
  \<^verbatim>\<open>int(s)\<close> on a string: surrounding whitespace is stripped, one sign is allowed, and the
  digits may be grouped by single underscores. Anything else raises ValueError. The
  whitespace \<^verbatim>\<open>int\<close> strips is tab, line feed, vertical tab, form feed, carriage return and
  space, and of the characters from 127 on, which it first maps to ASCII, the two that
  are spaces: next line (133) and no-break space (160); every other character from 127 on
  becomes a question mark and is rejected. Characters beyond 255, among them the other
  decimal digits Python accepts, are outside \<^typ>\<open>string\<close>.
\<close>

definition is_space :: "char \<Rightarrow> bool" where
  "is_space c = (of_char c \<in> {9::nat, 10, 11, 12, 13, 32, 133, 160})"

definition strip :: "string \<Rightarrow> string" where
  "strip s = rev (dropWhile is_space (rev (dropWhile is_space s)))"

fun digit_groups :: "string \<Rightarrow> bool" where
  "digit_groups [] = False"
| "digit_groups [c] = is_digit c"
| "digit_groups (c # d # cs) =
     (is_digit c \<and> (if d = CHR ''_'' then digit_groups cs else digit_groups (d # cs)))"

definition py_int :: "string \<Rightarrow> py_error + int" where
  "py_int s =
     (let t = strip s;
          neg = (t \<noteq> [] \<and> hd t = CHR ''-'');
          u = (if t \<noteq> [] \<and> (hd t = CHR ''-'' \<or> hd t = CHR ''+'') then tl t else t)
      in if digit_groups u
         then (let v = int (dec_val (filter (\<lambda>c. c \<noteq> CHR ''_'') u))
               in Inr (if neg then - v else v))
         else Inl ValueError)"

section \<open>Address allocator\<close>

text \<open>
  \<^verbatim>\<open>is_valid_ipv4_address\<close> asks \<^verbatim>\<open>socket.inet_pton(AF_INET, address)\<close>, a library call.
  Its model is the C library's parser, \<open>dotted_quad\<close>: exactly four dot-separated octets,
  each a non-empty run of decimal digits of value at most 255 with no leading zero. The
  call raises \<^verbatim>\<open>socket.error\<close> (OSError) for any other string, and ValueError, before it
  parses, for a string with a NUL character.
\<close>

definition valid_octet :: "string \<Rightarrow> bool" where
  "valid_octet p =
     (p \<noteq> [] \<and> list_all is_digit p \<and> (length p = 1 \<or> hd p \<noteq> CHR ''0'') \<and> dec_val p \<le> 255)"

definition dotted_quad :: "string \<Rightarrow> bool" where
  "dotted_quad address =
     (let ps = split_on CHR ''.'' address in length ps = 4 \<and> list_all valid_octet ps)"

definition inet_pton :: "string \<Rightarrow> py_error + unit" where
  "inet_pton address =
     (if CHR 0x00 \<in> set address then Inl ValueError
      else if dotted_quad address then Inr ()
      else Inl OSError)"

text \<open>
  \<^verbatim>\<open>is_valid_ipv4_address\<close> (lines 32 to 44) catches \<^verbatim>\<open>socket.error\<close> only; the ValueError
  goes through. (The fallback for a platform without \<^verbatim>\<open>inet_pton\<close> is not modelled.)
\<close>

definition is_valid_ipv4_address :: "string \<Rightarrow> py_error + bool" where
  "is_valid_ipv4_address address =
     (case inet_pton address of
        Inr u \<Rightarrow> Inr True
      | Inl e \<Rightarrow> if e = OSError then Inr False else Inl e)"

text \<open>
  The four helpers below index \<^verbatim>\<open>octets[3]\<close>: an address with fewer than four parts raises
  IndexError, and a last part that is not an integer raises ValueError.
\<close>

definition can_ip_satisfy_range :: "string \<Rightarrow> int \<Rightarrow> py_error + bool" where
  "can_ip_satisfy_range ip n =
     (let octets = split_on CHR ''.'' ip
      in if length octets \<le> 3 then Inl IndexError
         else (case py_int (octets ! 3) of
                 Inl e \<Rightarrow> Inl e
               | Inr d \<Rightarrow> is_valid_ipv4_address (join_with ''.'' (octets[3 := str_int (d + n)]))))"

definition get_cidr :: "string \<Rightarrow> py_error + string" where
  "get_cidr ip =
     (let octets = split_on CHR ''.'' ip
      in if length octets \<le> 3 then Inl IndexError
         else Inr (join_with ''.'' (octets[3 := ''0/24''])))"

definition get_cidr_escape :: "string \<Rightarrow> py_error + string" where
  "get_cidr_escape ip =
     (let octets = split_on CHR ''.'' ip
      in if length octets \<le> 3 then Inl IndexError
         else Inr (join_with ''.'' (octets[3 := [CHR ''0'', CHR 0x5C, CHR ''/'', CHR ''2'', CHR ''4'']])))"

definition get_default_ip_for_condor :: "string \<Rightarrow> py_error + string" where
  "get_default_ip_for_condor ip =
     (let octets = split_on CHR ''.'' ip
      in if length octets \<le> 3 then Inl IndexError
         else Inr (join_with ''.'' (octets[3 := ''*''])))"

definition get_next_ip :: "string \<Rightarrow> py_error + string" where
  "get_next_ip ip =
     (let octets = split_on CHR ''.'' ip
      in if length octets \<le> 3 then Inl IndexError
         else (case py_int (octets ! 3) of
                 Inl e \<Rightarrow> Inl e
               | Inr d \<Rightarrow> Inr (join_with ''.'' (octets[3 := str_int (d + 1)]))))"

text \<open>The address written \<open>a.b.c.d\<close>, and \<^verbatim>\<open>get_next_ip\<close> applied \<open>n\<close> times.\<close>

definition dotted :: "nat \<Rightarrow> nat \<Rightarrow> nat \<Rightarrow> nat \<Rightarrow> string" where
  "dotted a b c d = join_with ''.'' [str_nat a, str_nat b, str_nat c, str_nat d]"

fun next_times :: "nat \<Rightarrow> string \<Rightarrow> py_error + string" where
  "next_times 0 ip = Inr ip"
| "next_times (Suc k) ip =
     (case get_next_ip ip of Inl e \<Rightarrow> Inl e | Inr ip' \<Rightarrow> next_times k ip')"

section \<open>Template substitution\<close>

text \<open>
  \<^verbatim>\<open>s.replace(old, new)\<close>: every non-overlapping occurrence of \<open>old\<close>, found from the left,
  is replaced. With an empty \<open>old\<close> Python inserts \<open>new\<close> around every character.
\<close>

fun replace_all :: "string \<Rightarrow> string \<Rightarrow> string \<Rightarrow> string" where
  "replace_all old new [] = []"
| "replace_all old new (c # cs) =
     (if old \<noteq> [] \<and> prefix old (c # cs)
      then new @ replace_all old new (drop (length old) (c # cs))
      else c # replace_all old new cs)"

definition py_replace :: "string \<Rightarrow> string \<Rightarrow> string \<Rightarrow> string" where
  "py_replace old new s =
     (if old = [] then new @ concat (map (\<lambda>c. c # new) s) else replace_all old new s)"

text \<open>\<^verbatim>\<open>str(x)\<close> of a value that is a string or None.\<close>

definition str_opt :: "string option \<Rightarrow> string" where
  "str_opt x = (case x of None \<Rightarrow> ''None'' | Some v \<Rightarrow> v)"

text \<open>
  Lines 546 to 562 of \<^verbatim>\<open>create_compute\<close>: the ordered substitutions on the boot script.
  The two address branches are two independent \<^verbatim>\<open>if\<close> statements, in this order.
\<close>

definition render_script ::
  "string \<Rightarrow> string \<Rightarrow> string \<Rightarrow> string option \<Rightarrow> string option \<Rightarrow> string option \<Rightarrow>
   string option \<Rightarrow> string option \<Rightarrow> string option \<Rightarrow> string \<Rightarrow> string" where
  "render_script workflowId oldnodename nodename submitSubnet forwardIP subnet ipStart defIP
       storagename s0 =
     (let s1 = py_replace ''WORKFLOW'' workflowId s0;
          s2 = py_replace oldnodename nodename s1;
          s3 = py_replace ''SUBMIT'' (str_opt submitSubnet) s2;
          s4 = (case forwardIP of
                  None \<Rightarrow> s3
                | Some f \<Rightarrow>
                    (let t = py_replace ''IPADDR'' f s3
                     in case subnet of None \<Rightarrow> t | Some sn \<Rightarrow> py_replace ''SUBNET'' sn t));
          s5 = (case ipStart of
                  None \<Rightarrow> s4
                | Some ip \<Rightarrow>
                    (let t = py_replace ''IPADDR'' ip s4
                     in case subnet of None \<Rightarrow> t | Some sn \<Rightarrow> py_replace ''SUBNET'' sn t));
          s6 = (case defIP of None \<Rightarrow> s5 | Some d \<Rightarrow> py_replace ''REPLACEIP'' d s5);
          s7 = (case storagename of None \<Rightarrow> s6 | Some n \<Rightarrow> py_replace ''STORAGENODE'' n s6)
      in s7)"

section \<open>Shapes, remote services and the run state\<close>

text \<open>
  A node shape is the JSON object of \<^verbatim>\<open>storage.json\<close>, \<^verbatim>\<open>master.json\<close>, \<^verbatim>\<open>submit.json\<close> or
  \<^verbatim>\<open>worker.json\<close>, reduced to the keys the program touches. \<open>None\<close> in \<open>hostNamePrefix\<close> and
  \<open>postBootScript\<close> is JSON null (both keys are required); \<open>None\<close> in \<open>stitchIP\<close> is an
  absent key, whose read raises KeyError. \<^verbatim>\<open>stitch.json\<close> is a record of its own.
\<close>

record shape =
  site :: "string option"
  hostNamePrefix :: "string option"
  postBootScript :: "string option"
  ipAddress :: "string option"
  leaseEnd :: "string option"
  stitchIP :: "string option"

record stitch =
  stitch_ip :: string
  target :: string
  tag :: "string option"

text \<open>
  The status document of \<^verbatim>\<open>get_workflow\<close>, after both \<^verbatim>\<open>json.loads\<close>: a list of per-site
  requests, each with slices of nodes. \<open>r_vlan\<close> holds \<^verbatim>\<open>str(req["vlan"])\<close> when the key
  is there.
\<close>

record wf_node =
  n_name :: string
  n_state :: string

record wf_slice =
  s_slice :: string
  s_nodes :: "wf_node list"

record wf_request =
  r_site :: string
  r_vlan :: "string option"
  r_slices :: "wf_slice list"

record wf_response =
  wf_status :: int
  wf_requests :: "wf_request list"

text \<open>
  Every remote call and every sleep of a run, in program order. The host and the workflow
  id are the same in every call and are left out; a node creation is logged with the
  status the service answered.
\<close>

datatype event =
    CreateWorkflow
  | GetWorkflow
  | DeleteWorkflow
  | CreateCompute shape int
  | CreateStitchport stitch
  | UpdateFamily string string string
  | DeleteFamilies
  | Sleep nat

text \<open>
  The surroundings of one run: the files of the data directories and what the workflow
  service answers. The run is sequential, so the service is the sequence of its answers:
  \<open>compute_status k\<close> answers the \<open>k\<close>-th node creation of the run and \<open>workflow_status k\<close>
  the \<open>k\<close>-th status query.
\<close>

record env =
  shape_files :: "string \<Rightarrow> shape option"
  stitch_files :: "string \<Rightarrow> stitch option"
  create_workflow_status :: int
  compute_status :: "nat \<Rightarrow> int"
  workflow_status :: "nat \<Rightarrow> wf_response"

text \<open>
  The mutable state: the log of calls, the allocation map \<^verbatim>\<open>ipMap\<close> (a dict, kept in
  insertion order) and the \<^verbatim>\<open>ERROR\<close> lines printed before an exit.
\<close>

record world =
  calls :: "event list"
  ipMap :: "(string \<times> string) list"
  errors :: "string list"

definition world0 :: world where
  "world0 = \<lparr>calls = [], ipMap = [], errors = []\<rparr>"

fun is_compute :: "event \<Rightarrow> bool" where
  "is_compute (CreateCompute p r) = True"
| "is_compute e = False"

fun is_failed :: "event \<Rightarrow> bool" where
  "is_failed (CreateCompute p r) = (r \<noteq> 200)"
| "is_failed e = False"

definition record_call :: "event \<Rightarrow> world \<Rightarrow> world" where
  "record_call e w = w\<lparr>calls := calls w @ [e]\<rparr>"

definition mb_create_compute :: "env \<Rightarrow> shape \<Rightarrow> world \<Rightarrow> int \<times> world" where
  "mb_create_compute E payload w =
     (let r = compute_status E (length (filter is_compute (calls w)))
      in (r, record_call (CreateCompute payload r) w))"

definition mb_get_workflow :: "env \<Rightarrow> world \<Rightarrow> wf_response \<times> world" where
  "mb_get_workflow E w =
     (workflow_status E (length (filter (\<lambda>e. e = GetWorkflow) (calls w))), record_call GetWorkflow w)"

section \<open>Node provisioner\<close>

text \<open>
  \<^verbatim>\<open>create_compute\<close> (lines 530 to 568). The shape \<open>mdata\<close> is mutated in place by the
  source; the model returns the mutated shape next to the response status and the
  resolved name, so that a caller that keeps the object (the worker loop) passes it on.
  The map entry is written before \<^verbatim>\<open>get_default_ip_for_condor\<close> can raise.
\<close>

definition create_compute ::
  "env \<Rightarrow> string \<Rightarrow> string option \<Rightarrow> string option \<Rightarrow> string \<Rightarrow> shape \<Rightarrow> nat \<Rightarrow> string \<Rightarrow>
   string \<Rightarrow> string option \<Rightarrow> string option \<Rightarrow> string option \<Rightarrow> string option \<Rightarrow> world \<Rightarrow>
   (py_error + (int \<times> string \<times> shape)) \<times> world" where
  "create_compute E nodename ipStart lease workflowId mdata count oldnodename sitename
       submitSubnet storagename subnet forwardIP w =
     (let nodename1 =
            (case hostNamePrefix mdata of
               None \<Rightarrow> nodename
             | Some p \<Rightarrow>
                 if sublist ''Exogeni'' sitename then p @ str_nat count
                 else workflowId @ ''-'' @ p @ str_nat count);
          mdata1 = (case ipStart of None \<Rightarrow> mdata | Some ip \<Rightarrow> mdata\<lparr>ipAddress := Some ip\<rparr>);
          w1 = (case ipStart of
                  None \<Rightarrow> w
                | Some ip \<Rightarrow> w\<lparr>ipMap := AList.update nodename1 ip (ipMap w)\<rparr>)
      in case (case ipStart of
                 None \<Rightarrow> Inr None
               | Some ip \<Rightarrow> map_sum id Some (get_default_ip_for_condor ip)) of
           Inl e \<Rightarrow> (Inl e, w1)
         | Inr defIP \<Rightarrow>
             (let mdata2 = (case lease of None \<Rightarrow> mdata1 | Some l \<Rightarrow> mdata1\<lparr>leaseEnd := Some l\<rparr>);
                  mdata3 =
                    (case postBootScript mdata2 of
                       None \<Rightarrow> mdata2
                     | Some s \<Rightarrow>
                         mdata2\<lparr>postBootScript :=
                           Some (render_script workflowId oldnodename nodename1 submitSubnet
                                   forwardIP subnet ipStart defIP storagename s)\<rparr>);
                  (r, w2) = mb_create_compute E mdata3 w1
              in (Inr (r, nodename1, mdata3), w2)))"

section \<open>Site cluster provisioner\<close>

text \<open>The command line, as \<^verbatim>\<open>argparse\<close> delivers it (\<open>None\<close> for an option not given).\<close>

record args =
  exogenisite :: "string option"
  chameleonsite :: "string option"
  exoworkers :: "int option"
  chworkers :: "int option"
  comethost :: "string option"
  cert :: "string option"
  key :: "string option"
  mobiushost :: string
  operation :: string
  workflowId :: string
  exoipStart :: "string option"
  chipStart :: "string option"
  leaseEndArg :: "string option"
  exodatadir :: "string option"
  chdatadir :: "string option"

text \<open>
  \<^verbatim>\<open>provision_storage\<close> (lines 425 to 458). \<^verbatim>\<open>get_cidr_escape(ipStart)\<close> with no start
  address calls \<^verbatim>\<open>split\<close> on None and raises AttributeError.
\<close>

definition provision_storage ::
  "env \<Rightarrow> args \<Rightarrow> string \<Rightarrow> string \<Rightarrow> nat \<Rightarrow> string option \<Rightarrow> string option \<Rightarrow> string option \<Rightarrow>
   string option \<Rightarrow> world \<Rightarrow> (py_error + (bool \<times> nat \<times> string option)) \<times> world" where
  "provision_storage E a datadir sitename count ipStart submitSubnet sip exogeniSubnet w =
     (case shape_files E (datadir @ ''/storage.json'') of
        None \<Rightarrow> (Inr (True, count, None), w)
      | Some f \<Rightarrow>
          (let stdata = f\<lparr>site := Some sitename\<rparr>
           in case (case postBootScript stdata of
                      None \<Rightarrow> Inr stdata
                    | Some s \<Rightarrow>
                        (case ipStart of
                           None \<Rightarrow> Inl AttributeError
                         | Some ip \<Rightarrow>
                             (case get_cidr_escape ip of
                                Inl e \<Rightarrow> Inl e
                              | Inr cidr \<Rightarrow>
                                  (let s1 = py_replace ''CIDR'' cidr s;
                                       s2 = (case sip of
                                               None \<Rightarrow> s1
                                             | Some x \<Rightarrow> py_replace ''SIP'' x s1)
                                   in Inr (stdata\<lparr>postBootScript := Some s2\<rparr>))))) of
                Inl e \<Rightarrow> (Inl e, w)
              | Inr stdata1 \<Rightarrow>
                  (case create_compute E (''Node'' @ str_nat count) ipStart (leaseEndArg a)
                          (workflowId a) stdata1 count ''NODENAME'' sitename submitSubnet None
                          exogeniSubnet None w of
                     (Inl e, w1) \<Rightarrow> (Inl e, w1)
                   | (Inr (r, nodename, md), w1) \<Rightarrow>
                       if r \<noteq> 200
                       then (Inr (False, count, None), record_call DeleteWorkflow w1)
                       else (Inr (True, count + 1, Some nodename), w1))))"

text \<open>\<^verbatim>\<open>if ipStart is not None: ipStart = get_next_ip(ipStart)\<close>.\<close>

definition advance_ip :: "string option \<Rightarrow> py_error + string option" where
  "advance_ip ipStart =
     (case ipStart of None \<Rightarrow> Inr None | Some ip \<Rightarrow> map_sum id Some (get_next_ip ip))"

text \<open>
  \<^verbatim>\<open>provision_condor_cluster\<close> (lines 460 to 528), one definition per block. Each block
  returns the success flag, the counter and the current address. The worker loop keeps
  the one object \<open>wdata\<close> and the name of the worker created last.
\<close>

definition provision_master ::
  "env \<Rightarrow> args \<Rightarrow> string \<Rightarrow> string option \<Rightarrow> string option \<Rightarrow> string option \<Rightarrow> string option \<Rightarrow>
   shape option \<Rightarrow> string option \<Rightarrow> nat \<Rightarrow> world \<Rightarrow>
   (py_error + (bool \<times> nat \<times> string option)) \<times> world" where
  "provision_master E a sitename submitSubnet storagename subnet forwardIP mdata ipStart count w =
     (case mdata of
        None \<Rightarrow> (Inr (True, count, ipStart), w)
      | Some md \<Rightarrow>
          (case (if ipStart \<noteq> None \<and> storagename \<noteq> None then advance_ip ipStart
                 else Inr ipStart) of
             Inl e \<Rightarrow> (Inl e, w)
           | Inr ipStart1 \<Rightarrow>
               (case create_compute E (''Node'' @ str_nat count) ipStart1 (leaseEndArg a)
                       (workflowId a) md count ''NODENAME'' sitename submitSubnet storagename
                       subnet forwardIP w of
                  (Inl e, w1) \<Rightarrow> (Inl e, w1)
                | (Inr (r, nodename, md1), w1) \<Rightarrow>
                    if r \<noteq> 200
                    then (Inr (False, count, ipStart1), record_call DeleteWorkflow w1)
                    else (Inr (True, count + 1, ipStart1), w1))))"

definition provision_submit ::
  "env \<Rightarrow> args \<Rightarrow> string \<Rightarrow> string option \<Rightarrow> string option \<Rightarrow> string option \<Rightarrow> string option \<Rightarrow>
   shape option \<Rightarrow> string option \<Rightarrow> nat \<Rightarrow> world \<Rightarrow>
   (py_error + (bool \<times> nat \<times> string option)) \<times> world" where
  "provision_submit E a sitename submitSubnet storagename subnet forwardIP sdata ipStart count w =
     (case sdata of
        None \<Rightarrow> (Inr (True, count, ipStart), w)
      | Some sd \<Rightarrow>
          (case advance_ip ipStart of
             Inl e \<Rightarrow> (Inl e, w)
           | Inr ipStart1 \<Rightarrow>
               (case create_compute E (''Node'' @ str_nat count) ipStart1 (leaseEndArg a)
                       (workflowId a) sd count ''NODENAME'' sitename submitSubnet storagename
                       subnet forwardIP w of
                  (Inl e, w1) \<Rightarrow> (Inl e, w1)
                | (Inr (r, nodename, sd1), w1) \<Rightarrow>
                    if r \<noteq> 200
                    then (Inr (False, count, ipStart1), record_call DeleteWorkflow w1)
                    else (Inr (True, count + 1, ipStart1), w1))))"

fun provision_workers ::
  "env \<Rightarrow> args \<Rightarrow> string \<Rightarrow> string option \<Rightarrow> string option \<Rightarrow> string option \<Rightarrow> string option \<Rightarrow>
   nat \<Rightarrow> shape \<Rightarrow> string \<Rightarrow> string option \<Rightarrow> nat \<Rightarrow> world \<Rightarrow>
   (py_error + (bool \<times> nat)) \<times> world" where
  "provision_workers E a sitename submitSubnet storagename subnet forwardIP 0 wdata oldnodename
       ipStart count w = (Inr (True, count), w)"
| "provision_workers E a sitename submitSubnet storagename subnet forwardIP (Suc k) wdata
       oldnodename ipStart count w =
     (case advance_ip ipStart of
        Inl e \<Rightarrow> (Inl e, w)
      | Inr ipStart1 \<Rightarrow>
          (case create_compute E (''Node'' @ str_nat count) ipStart1 (leaseEndArg a)
                  (workflowId a) wdata count oldnodename sitename submitSubnet storagename
                  subnet forwardIP w of
             (Inl e, w1) \<Rightarrow> (Inl e, w1)
           | (Inr (r, nodename, wdata1), w1) \<Rightarrow>
               if r \<noteq> 200
               then (Inr (False, count), record_call DeleteWorkflow w1)
               else provision_workers E a sitename submitSubnet storagename subnet forwardIP k
                      wdata1 nodename ipStart1 (count + 1) w1))"

text \<open>
  \<^verbatim>\<open>range(workers)\<close> raises TypeError when the worker count was not given, and is empty
  for a count that is not positive.
\<close>

definition provision_condor_cluster ::
  "env \<Rightarrow> args \<Rightarrow> string \<Rightarrow> string \<Rightarrow> nat \<Rightarrow> string option \<Rightarrow> int option \<Rightarrow> string option \<Rightarrow>
   string option \<Rightarrow> string option \<Rightarrow> string option \<Rightarrow> world \<Rightarrow>
   (py_error + (bool \<times> nat)) \<times> world" where
  "provision_condor_cluster E a datadir sitename count ipStart workers storagename subnet
       forwardIP submitSubnet w =
     (let mdata = map_option (\<lambda>f. f\<lparr>site := Some sitename\<rparr>)
                    (shape_files E (datadir @ ''/master.json''));
          sdata = map_option (\<lambda>f. f\<lparr>site := Some sitename\<rparr>)
                    (shape_files E (datadir @ ''/submit.json''));
          wdata = map_option (\<lambda>f. f\<lparr>site := Some sitename\<rparr>)
                    (shape_files E (datadir @ ''/worker.json''))
      in case provision_master E a sitename submitSubnet storagename subnet forwardIP mdata
                ipStart count w of
           (Inl e, w1) \<Rightarrow> (Inl e, w1)
         | (Inr (False, count1, ipStart1), w1) \<Rightarrow> (Inr (False, count1), w1)
         | (Inr (True, count1, ipStart1), w1) \<Rightarrow>
             (case provision_submit E a sitename submitSubnet storagename subnet forwardIP sdata
                     ipStart1 count1 w1 of
                (Inl e, w2) \<Rightarrow> (Inl e, w2)
              | (Inr (False, count2, ipStart2), w2) \<Rightarrow> (Inr (False, count2), w2)
              | (Inr (True, count2, ipStart2), w2) \<Rightarrow>
                  (case wdata of
                     None \<Rightarrow> (Inr (True, count2), w2)
                   | Some wd \<Rightarrow>
                       (case workers of
                          None \<Rightarrow> (Inl TypeError, w2)
                        | Some n \<Rightarrow>
                            provision_workers E a sitename submitSubnet storagename subnet
                              forwardIP (nat n) wd ''NODENAME'' ipStart2 count2 w2))))"

section \<open>Cross-site orchestrator\<close>

text \<open>
  How a run of \<^verbatim>\<open>main\<close> ends: \<^verbatim>\<open>sys.exit(n)\<close>, a plain \<^verbatim>\<open>return\<close> (the interpreter then
  exits with status 0), or an uncaught exception (the interpreter prints the traceback and
  exits with status 1).
\<close>

datatype outcome = Exit int | Returned | Raised py_error


text \<open>
  The argument checks of the create operation (lines 216 to 252): \<open>Inr None\<close> when all
  pass, \<open>Inr (Some msg)\<close> for the branch that prints \<open>msg\<close> and calls \<^verbatim>\<open>sys.exit(1)\<close>.
  \<^verbatim>\<open>args.exoworkers + 1\<close> raises TypeError when the count was not given.
\<close>

definition check_range :: "string option \<Rightarrow> int option \<Rightarrow> py_error + string option" where
  "check_range ipStart workers =
     (case ipStart of
        None \<Rightarrow> Inr None
      | Some ip \<Rightarrow>
          (case is_valid_ipv4_address ip of
             Inl e \<Rightarrow> Inl e
           | Inr valid \<Rightarrow>
               if \<not> valid then Inr (Some ''ERROR: Invalid start ip address specified'')
               else (case workers of
                       None \<Rightarrow> Inl TypeError
                     | Some n \<Rightarrow>
                         (case can_ip_satisfy_range ip (n + 1) of
                            Inl e \<Rightarrow> Inl e
                          | Inr ok \<Rightarrow>
                              if \<not> ok
                              then Inr (Some ''ERROR: Invalid start ip address specified; cannot accomdate the ip for all nodes'')
                              else Inr None))))"

definition validate_create :: "args \<Rightarrow> py_error + string option" where
  "validate_create a =
     (if (exogenisite a = None \<and> chameleonsite a = None)
         \<or> (exoworkers a = None \<and> chworkers a = None)
         \<or> (exodatadir a = None \<and> chdatadir a = None)
      then Inr (Some ''ERROR: site name, number of workers and data directory must be specified for create operation'')
      else (case check_range (exoipStart a) (exoworkers a) of
              Inl e \<Rightarrow> Inl e
            | Inr (Some msg) \<Rightarrow> Inr (Some msg)
            | Inr None \<Rightarrow>
                (case check_range (chipStart a) (chworkers a) of
                   Inl e \<Rightarrow> Inl e
                 | Inr (Some msg) \<Rightarrow> Inr (Some msg)
                 | Inr None \<Rightarrow>
                     if comethost a \<noteq> None \<and> (cert a = None \<or> key a = None)
                     then Inr (Some ''ERROR: comet certificate and key must be specified when comethost is indicated'')
                     else if (case chameleonsite a of
                                None \<Rightarrow> False
                              | Some s \<Rightarrow> \<not> sublist ''Chameleon'' s)
                     then Inr (Some ''ERROR: Invalid site specified'')
                     else if (case exogenisite a of
                                None \<Rightarrow> False
                              | Some s \<Rightarrow> \<not> sublist ''Exogeni'' s)
                     then Inr (Some ''ERROR: Invalid site specified'')
                     else Inr None)))"

text \<open>
  Lines 264 to 278: the stitch metadata, the stitch address \<open>sip\<close> and the submit subnet,
  read from the exogeni data directory.
\<close>

definition read_stitch_hints ::
  "env \<Rightarrow> args \<Rightarrow> py_error + (stitch option \<times> string option \<times> string option)" where
  "read_stitch_hints E a =
     (case (exogenisite a, exodatadir a) of
        (Some s, Some d) \<Rightarrow>
          (let stitchdata = stitch_files E (d @ ''/stitch.json'');
               sip = map_option stitch_ip stitchdata
           in case shape_files E (d @ ''/storage.json'') of
                None \<Rightarrow> Inr (stitchdata, sip, None)
              | Some submitdata \<Rightarrow>
                  (case stitchIP submitdata of
                     None \<Rightarrow> Inl KeyError
                   | Some ip \<Rightarrow>
                       (case get_cidr ip of
                          Inl e \<Rightarrow> Inl e
                        | Inr c \<Rightarrow> Inr (stitchdata, sip, Some c))))
      | _ \<Rightarrow> Inr (None, None, None))"

text \<open>\<^verbatim>\<open>get_cidr(x)\<close> when \<open>x\<close> was given, else None.\<close>

definition cidr_opt :: "string option \<Rightarrow> py_error + string option" where
  "cidr_opt x = (case x of None \<Rightarrow> Inr None | Some ip \<Rightarrow> map_sum id Some (get_cidr ip))"

text \<open>
  Lines 279 to 286. Without \<^verbatim>\<open>storage.json\<close> the storage pass returns the name None, and
  \<^verbatim>\<open>chstoragename + ".novalocal"\<close> raises TypeError.
\<close>

definition chameleon_storage ::
  "env \<Rightarrow> args \<Rightarrow> string option \<Rightarrow> nat \<Rightarrow> world \<Rightarrow> (outcome + (nat \<times> string option)) \<times> world" where
  "chameleon_storage E a submitSubnet count w =
     (case (chameleonsite a, chdatadir a) of
        (Some s, Some d) \<Rightarrow>
          (case cidr_opt (exoipStart a) of
             Inl e \<Rightarrow> (Inl (Raised e), w)
           | Inr exogeniSubnet \<Rightarrow>
               (case provision_storage E a d s count (chipStart a) submitSubnet None
                       exogeniSubnet w of
                  (Inl e, w1) \<Rightarrow> (Inl (Raised e), w1)
                | (Inr (False, count1, nm), w1) \<Rightarrow> (Inl Returned, w1)
                | (Inr (True, count1, None), w1) \<Rightarrow> (Inl (Raised TypeError), w1)
                | (Inr (True, count1, Some nm), w1) \<Rightarrow>
                    (Inr (count1, Some (nm @ ''.novalocal'')), w1)))
      | _ \<Rightarrow> (Inr (count, None), w))"

text \<open>Lines 287 to 290.\<close>

definition exogeni_storage ::
  "env \<Rightarrow> args \<Rightarrow> string option \<Rightarrow> string option \<Rightarrow> nat \<Rightarrow> world \<Rightarrow>
   (outcome + (nat \<times> string option)) \<times> world" where
  "exogeni_storage E a submitSubnet sip count w =
     (case (exogenisite a, exodatadir a) of
        (Some s, Some d) \<Rightarrow>
          (case provision_storage E a d s count (exoipStart a) submitSubnet sip None w of
             (Inl e, w1) \<Rightarrow> (Inl (Raised e), w1)
           | (Inr (False, count1, nm), w1) \<Rightarrow> (Inl Returned, w1)
           | (Inr (True, count1, nm), w1) \<Rightarrow> (Inr (count1, nm), w1))
      | _ \<Rightarrow> (Inr (count, None), w))"

text \<open>Lines 291 to 301.\<close>

definition chameleon_cluster ::
  "env \<Rightarrow> args \<Rightarrow> stitch option \<Rightarrow> string option \<Rightarrow> string option \<Rightarrow> nat \<Rightarrow> world \<Rightarrow>
   (outcome + nat) \<times> world" where
  "chameleon_cluster E a stitchdata submitSubnet chstoragename count w =
     (case (chameleonsite a, chdatadir a) of
        (Some s, Some d) \<Rightarrow>
          (case cidr_opt (exoipStart a) of
             Inl e \<Rightarrow> (Inl (Raised e), w)
           | Inr exogeniSubnet \<Rightarrow>
               (case provision_condor_cluster E a d s count (chipStart a) (chworkers a)
                       chstoragename exogeniSubnet (map_option stitch_ip stitchdata)
                       submitSubnet w of
                  (Inl e, w1) \<Rightarrow> (Inl (Raised e), w1)
                | (Inr (False, count1), w1) \<Rightarrow> (Inl Returned, w1)
                | (Inr (True, count1), w1) \<Rightarrow> (Inr count1, w1)))
      | _ \<Rightarrow> (Inr count, w))"

text \<open>
  Lines 302 to 326. \<^verbatim>\<open>ipMap[exostoragename]\<close> raises KeyError when the name is not a key
  of the map.
\<close>

definition exogeni_cluster ::
  "env \<Rightarrow> args \<Rightarrow> string option \<Rightarrow> string option \<Rightarrow> nat \<Rightarrow> world \<Rightarrow> (outcome + nat) \<times> world" where
  "exogeni_cluster E a submitSubnet exostoragename count w =
     (case (exogenisite a, exodatadir a) of
        (Some s, Some d) \<Rightarrow>
          (case cidr_opt (chipStart a) of
             Inl e \<Rightarrow> (Inl (Raised e), w)
           | Inr chSubnet \<Rightarrow>
               (case (case exostoragename of
                        None \<Rightarrow> Inr None
                      | Some nm \<Rightarrow>
                          (case map_of (ipMap w) nm of
                             None \<Rightarrow> Inl KeyError
                           | Some ip \<Rightarrow> Inr (Some ip))) of
                  Inl e \<Rightarrow> (Inl (Raised e), w)
                | Inr forwardIP \<Rightarrow>
                    (case provision_condor_cluster E a d s count (exoipStart a) (exoworkers a)
                            exostoragename chSubnet forwardIP submitSubnet w of
                       (Inl e, w1) \<Rightarrow> (Inl (Raised e), w1)
                     | (Inr (False, count1), w1) \<Rightarrow> (Inl Returned, w1)
                     | (Inr (True, count1), w1) \<Rightarrow> (Inr count1, w1))))
      | _ \<Rightarrow> (Inr count, w))"

section \<open>Context publisher\<close>

text \<open>
  The two values handed to \<^verbatim>\<open>update_family\<close>, as JSON text: \<^verbatim>\<open>pubKeysVal\<close>, and
  \<^verbatim>\<open>json.dumps(hostNameVal)\<close> in which \<^verbatim>\<open>REPLACE\<close> and \<^verbatim>\<open>IPADDR\<close> are then substituted. The
  response of the context service is only printed and is not modelled.
\<close>

definition quoted :: "string \<Rightarrow> string" where
  "quoted x = [CHR 0x5C, CHR 0x22] @ x @ [CHR 0x5C, CHR 0x22]"

definition val_json :: "string \<Rightarrow> string" where
  "val_json body = ''{'' @ [CHR 0x22] @ ''val_'' @ [CHR 0x22] @ '': '' @ [CHR 0x22] @ body @ [CHR 0x22] @ ''}''"

definition pubKeysVal :: string where
  "pubKeysVal = val_json (''[{'' @ quoted ''publicKey'' @ '':'' @ quoted [] @ ''}]'')"

definition hostNameVal :: string where
  "hostNameVal =
     val_json (''[{'' @ quoted ''hostName'' @ '':'' @ quoted ''REPLACE'' @ '','' @ quoted ''ip'' @ '':''
               @ quoted ''IPADDR'' @ ''}]'')"

text \<open>
  Lines 345 to 381, for one node of one slice. The state carried along is the stitch
  metadata (its target is overwritten by the matching node's name), the last state seen
  of the stitch target, and the world.
\<close>

definition publish_node ::
  "string \<Rightarrow> stitch option \<times> string option \<times> world \<Rightarrow> wf_node \<Rightarrow>
   stitch option \<times> string option \<times> world" where
  "publish_node slice_name acc n =
     (case acc of
        (stitchdata, stitchNodeStatus, w) \<Rightarrow>
          (let w1 = record_call (UpdateFamily (n_name n) ''pubkeysall'' pubKeysVal) w;
               chameleon = sublist ''Chameleon'' slice_name;
               hostname = (if chameleon then n_name n @ ''.novalocal'' else n_name n);
               hit = (\<not> chameleon \<and>
                      (case stitchdata of
                         None \<Rightarrow> False
                       | Some d \<Rightarrow> sublist (target d) (n_name n)));
               stitchdata1 = (if hit then map_option (\<lambda>d. d\<lparr>target := n_name n\<rparr>) stitchdata
                              else stitchdata);
               stitchNodeStatus1 = (if hit then Some (n_state n) else stitchNodeStatus);
               hostVal = py_replace ''REPLACE'' hostname hostNameVal;
               hostVal1 = py_replace ''IPADDR''
                            (case map_of (ipMap w) (n_name n) of None \<Rightarrow> [] | Some ip \<Rightarrow> ip)
                            hostVal;
               w2 = record_call (UpdateFamily (n_name n) ''hostsall'' hostVal1) w1
           in (stitchdata1, stitchNodeStatus1, w2)))"

text \<open>Lines 337 to 344: one request of the status document, then all of them.\<close>

definition publish_request ::
  "string option \<times> stitch option \<times> string option \<times> world \<Rightarrow> wf_request \<Rightarrow>
   string option \<times> stitch option \<times> string option \<times> world" where
  "publish_request acc req =
     (case acc of
        (stitcVlanToChameleon, rest) \<Rightarrow>
          (let vlan1 = (if sublist ''Chameleon'' (r_site req)
                        then (case r_vlan req of None \<Rightarrow> stitcVlanToChameleon | Some v \<Rightarrow> Some v)
                        else stitcVlanToChameleon)
           in (vlan1,
               foldl (\<lambda>acc1 s. foldl (publish_node (s_slice s)) acc1 (s_nodes s)) rest
                 (r_slices req))))"

definition publish_context ::
  "wf_request list \<Rightarrow> stitch option \<Rightarrow> world \<Rightarrow>
   string option \<times> stitch option \<times> string option \<times> world" where
  "publish_context reqs stitchdata w = foldl publish_request (None, stitchdata, None, w) reqs"

section \<open>Stitching coordinator\<close>

text \<open>
  Lines 389 to 397: the state of the stitch target in one status document; with several
  matching nodes the last one wins, with none the previous state stays.
\<close>

definition scan_target :: "string \<Rightarrow> wf_request list \<Rightarrow> string option \<Rightarrow> string option" where
  "scan_target tgt reqs stitchNodeStatus =
     foldl (\<lambda>st req.
              if sublist ''Exogeni'' (r_site req)
              then foldl (\<lambda>st1 s.
                            foldl (\<lambda>st2 n. if tgt = n_name n then Some (n_state n) else st2)
                              st1 (s_nodes s))
                     st (r_slices req)
              else st)
       stitchNodeStatus reqs"

text \<open>
  The polling loop of lines 383 to 399 has no bound in the source. The model takes the
  number of iterations it may run as fuel: \<open>None\<close> is a loop still running when the fuel
  is spent. Printing \<^verbatim>\<open>stitchdata["target"]\<close> with no stitch metadata raises TypeError.
\<close>

fun wait_active ::
  "nat \<Rightarrow> env \<Rightarrow> stitch option \<Rightarrow> string option \<Rightarrow> world \<Rightarrow> ((py_error + unit) \<times> world) option" where
  "wait_active 0 E stitchdata stitchNodeStatus w =
     (if stitchNodeStatus = Some ''Active'' then Some (Inr (), w) else None)"
| "wait_active (Suc fuel) E stitchdata stitchNodeStatus w =
     (if stitchNodeStatus = Some ''Active'' then Some (Inr (), w)
      else (case stitchdata of
              None \<Rightarrow> Some (Inl TypeError, w)
            | Some d \<Rightarrow>
                (let (resp, w1) = mb_get_workflow E w;
                     status1 = (if wf_status resp = 200
                                then scan_target (target d) (wf_requests resp) stitchNodeStatus
                                else stitchNodeStatus)
                 in wait_active fuel E stitchdata status1 (record_call (Sleep 5) w1))))"

text \<open>\<^verbatim>\<open>perform_stitch\<close> (lines 411 to 423).\<close>

definition perform_stitch ::
  "env \<Rightarrow> string option \<Rightarrow> string \<Rightarrow> stitch option \<Rightarrow> world \<Rightarrow> (py_error + unit) \<times> world" where
  "perform_stitch E datadir vlan data w =
     (case (case data of
              Some d \<Rightarrow> Inr (Some d)
            | None \<Rightarrow>
                (case datadir of
                   None \<Rightarrow> Inl TypeError
                 | Some dir \<Rightarrow> Inr (stitch_files E (dir @ ''/stitch.json'')))) of
        Inl e \<Rightarrow> (Inl e, w)
      | Inr None \<Rightarrow> (Inr (), w)
      | Inr (Some d) \<Rightarrow> (Inr (), record_call (CreateStitchport (d\<lparr>tag := Some vlan\<rparr>)) w))"

text \<open>Lines 382 to 404, then \<^verbatim>\<open>sys.exit(0)\<close>.\<close>

definition stitching ::
  "nat \<Rightarrow> env \<Rightarrow> args \<Rightarrow> string option \<Rightarrow> stitch option \<Rightarrow> string option \<Rightarrow> world \<Rightarrow>
   (outcome \<times> world) option" where
  "stitching fuel E a stitcVlanToChameleon stitchdata stitchNodeStatus w =
     (case (stitcVlanToChameleon, exogenisite a) of
        (Some vlan, Some s) \<Rightarrow>
          (case wait_active fuel E stitchdata stitchNodeStatus w of
             None \<Rightarrow> None
           | Some (Inl e, w1) \<Rightarrow> Some (Raised e, w1)
           | Some (Inr u, w1) \<Rightarrow>
               (case perform_stitch E (exodatadir a) vlan stitchdata
                       (record_call (Sleep 60) w1) of
                  (Inl e, w2) \<Rightarrow> Some (Raised e, w2)
                | (Inr u2, w2) \<Rightarrow> Some (Exit 0, w2)))
      | _ \<Rightarrow> Some (Exit 0, w))"

section \<open>The program\<close>

text \<open>Lines 327 to 404: the status query, the publishing and the stitching.\<close>

definition finish_create :: "nat \<Rightarrow> env \<Rightarrow> args \<Rightarrow> stitch option \<Rightarrow> world \<Rightarrow> (outcome \<times> world) option" where
  "finish_create fuel E a stitchdata w =
     (let (resp, w1) = mb_get_workflow E w
      in if wf_status resp = 200 \<and> comethost a \<noteq> None
         then (case publish_context (wf_requests resp) stitchdata w1 of
                 (vlan, stitchdata1, stitchNodeStatus, w2) \<Rightarrow>
                   stitching fuel E a vlan stitchdata1 stitchNodeStatus w2)
         else stitching fuel E a None stitchdata None w1)"

text \<open>Lines 254 to 326, then the rest of the create operation.\<close>

definition main_create :: "nat \<Rightarrow> env \<Rightarrow> args \<Rightarrow> world \<Rightarrow> (outcome \<times> world) option" where
  "main_create fuel E a w0 =
     (let w1 = record_call CreateWorkflow w0
      in if create_workflow_status E \<noteq> 200 then Some (Exit 0, w1)
         else (case read_stitch_hints E a of
                 Inl e \<Rightarrow> Some (Raised e, w1)
               | Inr (stitchdata, sip, submitSubnet) \<Rightarrow>
                   (case chameleon_storage E a submitSubnet 0 w1 of
                      (Inl out, w2) \<Rightarrow> Some (out, w2)
                    | (Inr (count2, chstoragename), w2) \<Rightarrow>
                        (case exogeni_storage E a submitSubnet sip count2 w2 of
                           (Inl out, w3) \<Rightarrow> Some (out, w3)
                         | (Inr (count3, exostoragename), w3) \<Rightarrow>
                             (case chameleon_cluster E a stitchdata submitSubnet chstoragename
                                     count3 w3 of
                                (Inl out, w4) \<Rightarrow> Some (out, w4)
                              | (Inr count4, w4) \<Rightarrow>
                                  (case exogeni_cluster E a submitSubnet exostoragename count4
                                          w4 of
                                     (Inl out, w5) \<Rightarrow> Some (out, w5)
                                   | (Inr count5, w5) \<Rightarrow>
                                       finish_create fuel E a stitchdata w5))))))"

text \<open>
  \<^verbatim>\<open>main\<close>: the result is how the run ends and the world it leaves, or \<open>None\<close> when the
  polling loop is still running after \<open>fuel\<close> iterations.
\<close>

definition main :: "nat \<Rightarrow> env \<Rightarrow> args \<Rightarrow> (outcome \<times> world) option" where
  "main fuel E a =
     (if operation a = ''get'' then Some (Exit 0, snd (mb_get_workflow E world0))
      else if operation a = ''delete''
      then (let w1 = record_call DeleteWorkflow world0
            in Some (Exit 0, if comethost a \<noteq> None then record_call DeleteFamilies w1 else w1))
      else if operation a = ''create''
      then (case validate_create a of
              Inl e \<Rightarrow> Some (Raised e, world0)
            | Inr (Some msg) \<Rightarrow> Some (Exit 1, world0\<lparr>errors := [msg]\<rparr>)
            | Inr None \<Rightarrow> main_create fuel E a world0)
      else Some (Exit 1, world0))"

section \<open>Reading the call log\<close>

text \<open>
  \<open>all_succeeded\<close>: no node creation in the log was answered with a status other than 200.
  \<open>aborted\<close>: the log ends with the one failed node creation and the deletion of the
  workflow that follows it.
\<close>

definition all_succeeded :: "event list \<Rightarrow> bool" where
  "all_succeeded evs = (\<forall>e\<in>set evs. \<not> is_failed e)"

definition aborted :: "event list \<Rightarrow> bool" where
  "aborted evs =
     (\<exists>pre p r. evs = pre @ [CreateCompute p r, DeleteWorkflow] \<and> r \<noteq> 200 \<and> all_succeeded pre)"

text \<open>
  What a pass may add to the log, by its result: a pass that reports failure has aborted,
  any other pass (success, or an exception) has made successful creations only. The
  second predicate reads the same off a phase of \<^verbatim>\<open>main\<close>, where failure is a \<^verbatim>\<open>return\<close>.
\<close>

definition pass_log :: "py_error + bool \<times> 'a \<Rightarrow> event list \<Rightarrow> bool" where
  "pass_log res new =
     (case res of
        Inl e \<Rightarrow> all_succeeded new
      | Inr (ok, rest) \<Rightarrow> if ok then all_succeeded new else aborted new)"

definition phase_log :: "outcome + 'a \<Rightarrow> event list \<Rightarrow> bool" where
  "phase_log res new = (if res = Inl Returned then aborted new else all_succeeded new)"

definition run_log :: "outcome \<Rightarrow> event list \<Rightarrow> bool" where
  "run_log out new = (if out = Returned then aborted new else all_succeeded new)"

text \<open>
  The name \<^verbatim>\<open>create_compute\<close> resolves for a shape with host-name prefix \<open>p\<close> when the caller
  passes \<open>Node<count>\<close>, as every caller does.
\<close>

definition node_name :: "string \<Rightarrow> string \<Rightarrow> string option \<Rightarrow> nat \<Rightarrow> string" where
  "node_name wfid sitename p count =
     (case p of
        None \<Rightarrow> ''Node'' @ str_nat count
      | Some x \<Rightarrow>
          if sublist ''Exogeni'' sitename then x @ str_nat count
          else wfid @ ''-'' @ x @ str_nat count)"

text \<open>
  \<open>touched md ip p\<close>: the payload \<open>p\<close> is the shape \<open>md\<close> with the address \<open>ip\<close> written into
  it, the boot script and the lease end aside. \<open>assigned f sitename ip p\<close>: the payload \<open>p\<close>
  is the shape file \<open>f\<close> with the site and the address \<open>ip\<close> written into it.
\<close>

definition touched :: "shape \<Rightarrow> string \<Rightarrow> shape \<Rightarrow> bool" where
  "touched md ip p =
     (p\<lparr>postBootScript := None, leaseEnd := None\<rparr>
        = md\<lparr>ipAddress := Some ip, postBootScript := None, leaseEnd := None\<rparr>)"

definition assigned :: "shape \<Rightarrow> string \<Rightarrow> string \<Rightarrow> shape \<Rightarrow> bool" where
  "assigned f sitename ip p = touched (f\<lparr>site := Some sitename\<rparr>) ip p"

text \<open>
  The payloads of the node creations in a log, in order; the default wildcard address
  \<^verbatim>\<open>defIP\<close> that a creation that goes through has computed for the address it was given; and
  the strings that have none of the letters of the tokens \<^verbatim>\<open>WORKFLOW\<close>, \<^verbatim>\<open>SUBMIT\<close> and
  \<^verbatim>\<open>IPADDR\<close> (lower-case names, dotted addresses and subnet descriptors are such strings).
\<close>

fun payloads :: "event list \<Rightarrow> shape list" where
  "payloads [] = []"
| "payloads (CreateCompute p r # es) = p # payloads es"
| "payloads (e # es) = payloads es"


definition no_token_letter :: "string \<Rightarrow> bool" where
  "no_token_letter v = (set v \<inter> set ''WORKFLOWSUBMITIPADDR'' = {})"



text \<open>The calls to the context-exchange service.\<close>

fun is_update :: "event \<Rightarrow> bool" where
  "is_update (UpdateFamily n f v) = True"
| "is_update e = False"


text \<open>\<open>published w w'\<close>: from \<open>w\<close> to \<open>w'\<close> only calls to the context service were added.\<close>

definition published :: "world \<Rightarrow> world \<Rightarrow> bool" where
  "published w w' =
     ((\<exists>new. calls w' = calls w @ new \<and> list_all is_update new)
      \<and> ipMap w' = ipMap w \<and> errors w' = errors w)"

section \<open>Example inputs\<close>

text \<open>Concrete shapes and surroundings, used to run the model on the scenarios below.\<close>

definition ex_shape :: "string option \<Rightarrow> string option \<Rightarrow> shape" where
  "ex_shape p script =
     \<lparr>site = None, hostNamePrefix = p, postBootScript = script, ipAddress = None,
      leaseEnd = None, stitchIP = None\<rparr>"

definition quiet_env :: env where
  "quiet_env =
     \<lparr>shape_files = (\<lambda>path. None), stitch_files = (\<lambda>path. None),
      create_workflow_status = 200, compute_status = (\<lambda>k. 200),
      workflow_status = (\<lambda>k. \<lparr>wf_status = 200, wf_requests = []\<rparr>)\<rparr>"

text \<open>
  The command line of scenario 1: only a chameleon site, two workers, start address
  \<open>10.0.0.10\<close>, no context-exchange host.
\<close>

definition ex_args :: args where
  "ex_args =
     \<lparr>exogenisite = None, chameleonsite = Some ''Chameleon:CHI@UC'', exoworkers = None,
      chworkers = Some 2, comethost = None, cert = None, key = None,
      mobiushost = ''http://localhost:8080/mobius'', operation = ''create'',
      workflowId = ''wf1'', exoipStart = None, chipStart = Some ''10.0.0.10'',
      leaseEndArg = None, exodatadir = None, chdatadir = Some ''data''\<rparr>"

text \<open>
  A data directory with the four shape files, and surroundings in which the workflow
  service answers the \<open>k\<close>-th node creation with \<open>cs k\<close>.
\<close>

definition ex_files :: "string \<Rightarrow> shape option" where
  "ex_files =
     map_of
       [(''data/storage.json'', ex_shape (Some ''storage'') None),
        (''data/master.json'', ex_shape (Some ''master'') (Some ''id=WORKFLOW me=NODENAME ip=IPADDR'')),
        (''data/submit.json'', ex_shape (Some ''submit'') None),
        (''data/worker.json'', ex_shape (Some ''w'') (Some ''id=WORKFLOW me=NODENAME ip=IPADDR''))]"

definition ex_env :: "(nat \<Rightarrow> int) \<Rightarrow> env" where
  "ex_env cs =
     \<lparr>shape_files = ex_files, stitch_files = (\<lambda>path. None),
      create_workflow_status = 200, compute_status = cs,
      workflow_status = (\<lambda>k. \<lparr>wf_status = 200, wf_requests = []\<rparr>)\<rparr>"








section \<open>Decimal numerals and dotted addresses\<close>

lemma lt10_cases: "n < 10 \<Longrightarrow> n \<in> {0,1,2,3,4,5,6,7,8,9::nat}"
  by auto

lemma digit_char_is_digit: "n < 10 \<Longrightarrow> is_digit (digit_char n)"
  using lt10_cases[of n] unfolding is_digit_def digit_char_def by auto

lemma digit_val_digit_char: "n < 10 \<Longrightarrow> digit_val (digit_char n) = n"
  using lt10_cases[of n] unfolding digit_val_def digit_char_def by auto

lemma digit_char_zero: "n < 10 \<Longrightarrow> digit_char n = CHR ''0'' \<longleftrightarrow> n = 0"
  using lt10_cases[of n] unfolding digit_char_def by auto

lemma is_digit_facts:
  "is_digit c \<Longrightarrow> c \<noteq> CHR ''.'' \<and> c \<noteq> CHR ''_'' \<and> c \<noteq> CHR ''-'' \<and> c \<noteq> CHR ''+'' \<and> \<not> is_space c"
  unfolding is_digit_def is_space_def by auto

lemma str_nat_digits: "list_all is_digit (str_nat n)"
proof (induction n rule: str_nat.induct)
  case (1 n)
  show ?case
  proof (cases "n < 10")
    case True
    then show ?thesis by (subst str_nat.simps) (simp add: digit_char_is_digit)
  next
    case False
    with 1 show ?thesis by (subst str_nat.simps) (simp add: digit_char_is_digit)
  qed
qed

lemma str_nat_nonempty: "str_nat n \<noteq> []"
  by (subst str_nat.simps) simp

lemma dec_val_snoc: "dec_val (s @ [c]) = 10 * dec_val s + digit_val c"
  by (simp add: dec_val_def)

lemma dec_val_str_nat: "dec_val (str_nat n) = n"
proof (induction n rule: str_nat.induct)
  case (1 n)
  show ?case
  proof (cases "n < 10")
    case True
    then show ?thesis by (subst str_nat.simps) (simp add: dec_val_def digit_val_digit_char)
  next
    case False
    with 1 show ?thesis
      by (subst str_nat.simps) (simp add: dec_val_snoc digit_val_digit_char)
  qed
qed

lemma str_nat_small: "n < 10 \<Longrightarrow> str_nat n = [digit_char n]"
  by (subst str_nat.simps) simp

lemma hd_str_nat: "10 \<le> n \<Longrightarrow> hd (str_nat n) \<noteq> CHR ''0''"
proof (induction n rule: str_nat.induct)
  case (1 n)
  show ?case
  proof (cases "n div 10 < 10")
    case True
    from 1(2) have pos: "n div 10 \<noteq> 0" by auto
    have "str_nat n = [digit_char (n div 10), digit_char (n mod 10)]"
      using 1(2) True by (subst str_nat.simps) (simp add: str_nat_small)
    then show ?thesis using True pos by (simp add: digit_char_zero)
  next
    case False
    then have "hd (str_nat (n div 10)) \<noteq> CHR ''0''" using 1 by simp
    moreover have "str_nat n = str_nat (n div 10) @ [digit_char (n mod 10)]"
      using 1(2) by (subst str_nat.simps) simp
    ultimately show ?thesis by (simp add: str_nat_nonempty)
  qed
qed

lemma valid_octet_str_nat: "valid_octet (str_nat n) \<longleftrightarrow> n \<le> 255"
proof (cases "n < 10")
  case True
  then show ?thesis
    by (simp add: valid_octet_def str_nat_small digit_char_is_digit dec_val_def digit_val_digit_char)
next
  case False
  then show ?thesis
    by (simp add: valid_octet_def str_nat_nonempty str_nat_digits dec_val_str_nat hd_str_nat)
qed

lemma digits_no_dot: "list_all is_digit s \<Longrightarrow> CHR ''.'' \<notin> set s"
  by (induction s) (auto dest: is_digit_facts)

lemma split_on_none: "c \<notin> set u \<Longrightarrow> split_on c u = [u]"
  by (induction u) auto

lemma split_on_first: "c \<notin> set u \<Longrightarrow> split_on c (u @ c # rest) = u # split_on c rest"
  by (induction u) auto

lemma split_join4:
  assumes "CHR ''.'' \<notin> set p" "CHR ''.'' \<notin> set q" "CHR ''.'' \<notin> set r" "CHR ''.'' \<notin> set s"
  shows "split_on CHR ''.'' (join_with ''.'' [p, q, r, s]) = [p, q, r, s]"
  using assms by (simp add: split_on_first split_on_none)

lemma split_dotted:
  "split_on CHR ''.'' (dotted a b c d) = [str_nat a, str_nat b, str_nat c, str_nat d]"
  unfolding dotted_def by (intro split_join4 digits_no_dot str_nat_digits)

lemma digit_groups_digits: "s \<noteq> [] \<Longrightarrow> list_all is_digit s \<Longrightarrow> digit_groups s"
  by (induction s rule: digit_groups.induct) (auto dest: is_digit_facts)

lemma filter_digits: "list_all is_digit s \<Longrightarrow> filter (\<lambda>c. c \<noteq> CHR ''_'') s = s"
  by (induction s) (auto dest: is_digit_facts)

lemma dropWhile_digits: "list_all is_digit s \<Longrightarrow> dropWhile is_space s = s"
  by (cases s) (auto dest: is_digit_facts)

lemma strip_digits: "list_all is_digit s \<Longrightarrow> strip s = s"
proof -
  assume a: "list_all is_digit s"
  then have "list_all is_digit (rev s)" by (simp add: list_all_iff)
  with a show ?thesis by (simp add: strip_def dropWhile_digits)
qed

lemma py_int_digits:
  assumes "s \<noteq> []" "list_all is_digit s"
  shows "py_int s = Inr (int (dec_val s))"
proof -
  from assms have "is_digit (hd s)" by (cases s) auto
  then have "hd s \<noteq> CHR ''-''" "hd s \<noteq> CHR ''+''" by (auto dest: is_digit_facts)
  with assms show ?thesis
    by (simp add: py_int_def strip_digits digit_groups_digits filter_digits)
qed

lemma py_int_str_nat: "py_int (str_nat n) = Inr (int n)"
  by (simp add: py_int_digits str_nat_nonempty str_nat_digits dec_val_str_nat)

lemma set_split_on: "set s \<subseteq> insert c (\<Union> (set ` set (split_on c s)))"
proof (induction s)
  case Nil
  then show ?case by simp
next
  case (Cons x xs)
  then show ?case by (cases "split_on c xs") (auto split: if_splits)
qed

lemma set_join_with: "set (join_with sep ps) \<subseteq> set sep \<union> \<Union> (set ` set ps)"
  by (induction sep ps rule: join_with.induct) auto

lemma valid_octet_chars: "valid_octet p \<Longrightarrow> x \<in> set p \<Longrightarrow> is_digit x"
  by (auto simp: valid_octet_def list_all_iff)

lemma valid_address_chars:
  assumes "dotted_quad s" "x \<in> set s"
  shows "is_digit x \<or> x = CHR ''.''"
proof -
  from assms(2) set_split_on[of s "CHR ''.''"]
  consider "x = CHR ''.''" | p where "p \<in> set (split_on CHR ''.'' s)" "x \<in> set p" by auto
  then show ?thesis
  proof cases
    case 2
    with assms(1) have "valid_octet p" by (auto simp: dotted_quad_def list_all_iff Let_def)
    with 2 show ?thesis by (auto dest: valid_octet_chars)
  qed simp
qed

lemma dotted_quad_no_nul: "dotted_quad s \<Longrightarrow> CHR 0x00 \<notin> set s"
  using valid_address_chars[of s "CHR 0x00"] by (auto simp: is_digit_def)

lemma is_valid_iff: "is_valid_ipv4_address s = Inr True \<longleftrightarrow> dotted_quad s"
  using dotted_quad_no_nul[of s] by (auto simp: is_valid_ipv4_address_def inet_pton_def)

lemma is_valid_quad: "dotted_quad s \<Longrightarrow> is_valid_ipv4_address s = Inr True"
  by (simp add: is_valid_iff)

lemma dotted_no_nul: "CHR 0x00 \<notin> set (dotted a b c d)"
proof
  assume "CHR 0x00 \<in> set (dotted a b c d)"
  with set_join_with[of "''.''" "[str_nat a, str_nat b, str_nat c, str_nat d]"]
  have "CHR 0x00 \<in> set (str_nat a) \<union> set (str_nat b) \<union> set (str_nat c) \<union> set (str_nat d)"
    by (auto simp: dotted_def)
  with str_nat_digits[of a] str_nat_digits[of b] str_nat_digits[of c] str_nat_digits[of d]
  have "is_digit (CHR 0x00)" by (auto simp: list_all_iff)
  then show False by (simp add: is_digit_def)
qed

lemma is_valid_dotted_iff:
  "dotted_quad (dotted a b c d)
     \<longleftrightarrow> a \<le> 255 \<and> b \<le> 255 \<and> c \<le> 255 \<and> d \<le> 255"
  by (simp add: dotted_quad_def split_dotted valid_octet_str_nat)

lemma is_valid_dotted:
  "is_valid_ipv4_address (dotted a b c d)
     = Inr (a \<le> 255 \<and> b \<le> 255 \<and> c \<le> 255 \<and> d \<le> 255)"
  by (simp add: is_valid_ipv4_address_def inet_pton_def dotted_no_nul is_valid_dotted_iff)

lemma get_next_ip_dotted: "get_next_ip (dotted a b c d) = Inr (dotted a b c (d + 1))"
  using split_dotted[of a b c d]
  by (simp add: get_next_ip_def py_int_str_nat str_int_def dotted_def nat_add_distrib del: join_with.simps)

lemma next_times_dotted: "next_times n (dotted a b c d) = Inr (dotted a b c (d + n))"
  by (induction n arbitrary: d) (simp_all add: get_next_ip_dotted)

lemma can_fit_dotted:
  assumes "a \<le> 255" "b \<le> 255" "c \<le> 255" "0 \<le> n"
  shows "can_ip_satisfy_range (dotted a b c d) n = Inr (int d + n \<le> 255)"
proof -
  have "str_int (int d + n) = str_nat (d + nat n)"
    using assms by (simp add: str_int_def nat_add_distrib)
  moreover have "int d + n \<le> 255 \<longleftrightarrow> d + nat n \<le> 255" using assms by linarith
  ultimately show ?thesis
    using assms is_valid_dotted[of a b c "d + nat n", unfolded dotted_def]
      split_dotted[of a b c d, unfolded dotted_def]
    by (simp add: can_ip_satisfy_range_def py_int_str_nat dotted_def del: join_with.simps)
qed

lemma digit_char_digit_val: "is_digit c \<Longrightarrow> digit_char (digit_val c) = c \<and> digit_val c < 10"
  by (auto simp: is_digit_def digit_char_def digit_val_def)

lemma dec_val_lower: "a \<le> foldl (\<lambda>a c. 10 * a + digit_val c) a s"
proof (induction s arbitrary: a)
  case Nil
  then show ?case by simp
next
  case (Cons x xs)
  have "a \<le> 10 * a + digit_val x" by simp
  also have "\<dots> \<le> foldl (\<lambda>a c. 10 * a + digit_val c) (10 * a + digit_val x) xs" by (rule Cons.IH)
  finally show ?case by simp
qed

lemma dec_val_pos:
  assumes "is_digit x" "x \<noteq> CHR ''0''"
  shows "0 < dec_val (x # xs)"
proof -
  from assms have "0 < digit_val x" by (auto simp: is_digit_def digit_val_def)
  with dec_val_lower[of "digit_val x" xs] show ?thesis by (simp add: dec_val_def)
qed

lemma canonical_str_nat:
  "p \<noteq> [] \<Longrightarrow> list_all is_digit p \<Longrightarrow> length p = 1 \<or> hd p \<noteq> CHR ''0''
   \<Longrightarrow> str_nat (dec_val p) = p"
proof (induction p rule: rev_induct)
  case Nil
  then show ?case by simp
next
  case (snoc c q)
  from snoc.prems(2) have c: "is_digit c" and q: "list_all is_digit q" by simp_all
  note dc = digit_char_digit_val[OF c]
  show ?case
  proof (cases q)
    case Nil
    with dc show ?thesis by (simp add: dec_val_def str_nat_small)
  next
    case (Cons x xs)
    with snoc.prems(3) have x: "x \<noteq> CHR ''0''" by simp
    from q Cons have "is_digit x" by simp
    from dec_val_pos[OF this x] Cons have pos: "0 < dec_val q" by simp
    have "length q = 1 \<or> hd q \<noteq> CHR ''0''" using Cons x by simp
    with snoc.IH q Cons have ih: "str_nat (dec_val q) = q" by simp
    have v: "dec_val (q @ [c]) = 10 * dec_val q + digit_val c" by (rule dec_val_snoc)
    with pos have "\<not> dec_val (q @ [c]) < 10" by simp
    then have "str_nat (dec_val (q @ [c]))
                 = str_nat (dec_val (q @ [c]) div 10) @ [digit_char (dec_val (q @ [c]) mod 10)]"
      by (subst str_nat.simps) simp
    also have "\<dots> = q @ [c]" using dc ih by (simp add: v)
    finally show ?thesis .
  qed
qed

lemma valid_octet_canonical: "valid_octet p \<Longrightarrow> str_nat (dec_val p) = p \<and> dec_val p \<le> 255"
  by (simp add: valid_octet_def canonical_str_nat)

lemma split_on_nonempty: "split_on c s \<noteq> []"
  by (induction s) (auto split: list.splits)

lemma join_split: "join_with [c] (split_on c s) = s"
proof (induction s)
  case Nil
  then show ?case by simp
next
  case (Cons x xs)
  obtain y ys where s: "split_on c xs = y # ys"
    using split_on_nonempty[of c xs] by (cases "split_on c xs") auto
  show ?case
  proof (cases "x = c")
    case True
    with Cons s show ?thesis by simp
  next
    case False
    with Cons s show ?thesis by (cases ys) auto
  qed
qed

lemma valid_address_dotted:
  assumes "dotted_quad addr"
  shows "\<exists>a b c d. a \<le> 255 \<and> b \<le> 255 \<and> c \<le> 255 \<and> d \<le> 255 \<and> addr = dotted a b c d"
proof -
  let ?ps = "split_on CHR ''.'' addr"
  from assms have len: "length ?ps = 4" and oct: "\<forall>p\<in>set ?ps. valid_octet p"
    by (auto simp: dotted_quad_def Let_def list_all_iff)
  from len obtain p q r t where ps: "?ps = [p, q, r, t]"
    by (auto simp: length_Suc_conv eval_nat_numeral)
  with oct have v: "valid_octet p" "valid_octet q" "valid_octet r" "valid_octet t" by auto
  have "addr = join_with ''.'' ?ps" by (simp add: join_split)
  also have "\<dots> = dotted (dec_val p) (dec_val q) (dec_val r) (dec_val t)"
    using v[THEN valid_octet_canonical] by (simp add: ps dotted_def)
  finally show ?thesis using v[THEN valid_octet_canonical] by blast
qed

section \<open>Address allocator: the claims\<close>

text \<open>
  C7. For every valid IPv4 address \<open>a.b.c.d\<close> and every \<open>n \<ge> 0\<close>, \<^verbatim>\<open>can_ip_satisfy_range\<close>
  answers true exactly when \<open>d + n \<le> 255\<close>, and whenever \<open>d + n \<le> 255\<close>, \<^verbatim>\<open>get_next_ip\<close>
  applied \<open>n\<close> times yields \<open>a.b.c.(d+n)\<close>. Every string that \<^verbatim>\<open>is_valid_ipv4_address\<close>
  accepts is such an \<open>a.b.c.d\<close> with octets at most 255, so the statement ranges over all of them.
\<close>

theorem can_fit_and_next:
  assumes "is_valid_ipv4_address addr = Inr True" "0 \<le> n"
  shows "\<exists>a b c d. addr = dotted a b c d \<and> a \<le> 255 \<and> b \<le> 255 \<and> c \<le> 255 \<and> d \<le> 255
           \<and> can_ip_satisfy_range addr n = Inr (int d + n \<le> 255)
           \<and> (int d + n \<le> 255 \<longrightarrow>
                next_times (nat n) addr = Inr (dotted a b c (d + nat n)))"
proof -
  from assms(1) have "dotted_quad addr" by (simp add: is_valid_iff)
  from valid_address_dotted[OF this] obtain a b c d where
    o: "a \<le> 255" "b \<le> 255" "c \<le> 255" "d \<le> 255" and addr: "addr = dotted a b c d" by blast
  from can_fit_dotted[OF o(1,2,3) assms(2), of d] next_times_dotted[of "nat n" a b c d] o addr
  show ?thesis by blast
qed

theorem can_fit_and_next_witness:
  "is_valid_ipv4_address ''10.0.0.250'' = Inr True
   \<and> can_ip_satisfy_range ''10.0.0.250'' 5 = Inr True
   \<and> next_times 5 ''10.0.0.250'' = Inr ''10.0.0.255''
   \<and> can_ip_satisfy_range ''10.0.0.250'' 10 = Inr False"
proof -
  have d: "dotted 10 0 0 250 = ''10.0.0.250''" "dotted 10 0 0 255 = ''10.0.0.255''"
    by (simp_all add: dotted_def str_nat.simps digit_char_def)
  have v: "is_valid_ipv4_address ''10.0.0.250'' = Inr True"
    using is_valid_dotted[of 10 0 0 250, unfolded d(1)] by simp
  have s: "split_on CHR ''.'' ''10.0.0.250'' = [''10'', ''0'', ''0'', ''250'']" by simp
  have u: "a = 10 \<and> b = 0 \<and> c = 0 \<and> d = 250" if "''10.0.0.250'' = dotted a b c d" for a b c d
  proof -
    from that split_dotted[of a b c d] s
    have "str_nat a = ''10''" "str_nat b = ''0''" "str_nat c = ''0''" "str_nat d = ''250''" by simp_all
    then have "dec_val (str_nat a) = dec_val ''10''" "dec_val (str_nat b) = dec_val ''0''"
      "dec_val (str_nat c) = dec_val ''0''" "dec_val (str_nat d) = dec_val ''250''" by simp_all
    then have "a = dec_val ''10''" "b = dec_val ''0''" "c = dec_val ''0''" "d = dec_val ''250''"
      by (simp_all only: dec_val_str_nat)
    then show ?thesis by (simp add: dec_val_def digit_val_def)
  qed
  from can_fit_and_next[OF v, of 5] obtain a b c d where
    e: "''10.0.0.250'' = dotted a b c d"
    and r: "can_ip_satisfy_range ''10.0.0.250'' 5 = Inr (int d + 5 \<le> 255)"
    and t: "int d + 5 \<le> 255 \<longrightarrow> next_times (nat 5) ''10.0.0.250'' = Inr (dotted a b c (d + nat 5))"
    by auto
  from u[OF e] have abcd: "a = 10" "b = 0" "c = 0" "d = 250" by simp_all
  from r have r5: "can_ip_satisfy_range ''10.0.0.250'' 5 = Inr True" by (simp add: abcd)
  from t have t5: "next_times 5 ''10.0.0.250'' = Inr ''10.0.0.255''"
    unfolding abcd by (simp add: d(2))
  from can_fit_and_next[OF v, of 10] obtain a' b' c' d' where
    e': "''10.0.0.250'' = dotted a' b' c' d'"
    and r': "can_ip_satisfy_range ''10.0.0.250'' 10 = Inr (int d' + 10 \<le> 255)"
    by auto
  from u[OF e'] r' have r10: "can_ip_satisfy_range ''10.0.0.250'' 10 = Inr False" by simp
  from v r5 t5 r10 show ?thesis by simp
qed



section \<open>Node provisioner: the claims\<close>

text \<open>
  C8. Every call site passes \<open>Node<counter>\<close> as the name. The name \<^verbatim>\<open>create_compute\<close>
  resolves is \<open><prefix><counter>\<close> when the shape has a host-name prefix and the site name
  contains \<open>Exogeni\<close>, \<open><workflowId>-<prefix><counter>\<close> when it has a prefix and the site
  name does not, and the fallback \<open>Node<counter>\<close> when the prefix is null.
\<close>

theorem resolved_node_name:
  assumes "fst (create_compute E (''Node'' @ str_nat count) ipStart lease wfid mdata count
                  oldnodename sitename submitSubnet storagename subnet forwardIP w)
             = Inr (r, nm, md)"
  shows "nm = (case hostNamePrefix mdata of
                 None \<Rightarrow> ''Node'' @ str_nat count
               | Some p \<Rightarrow>
                   if sublist ''Exogeni'' sitename then p @ str_nat count
                   else wfid @ ''-'' @ p @ str_nat count)"
  using assms
  by (auto simp: create_compute_def Let_def split: option.splits sum.splits prod.splits)

theorem resolved_node_name_witness:
  "fst (create_compute quiet_env (''Node'' @ str_nat 3) None None ''wf1'' (ex_shape (Some ''w'') None) 3
            ''NODENAME'' ''Exogeni:RENCI'' None None None None world0)
     = Inr (200, ''w3'', ex_shape (Some ''w'') None)
   \<and> fst (create_compute quiet_env (''Node'' @ str_nat 3) None None ''wf1'' (ex_shape (Some ''w'') None) 3
            ''NODENAME'' ''Chameleon:CHI@UC'' None None None None world0)
     = Inr (200, ''wf1-w3'', ex_shape (Some ''w'') None)
   \<and> fst (create_compute quiet_env (''Node'' @ str_nat 3) None None ''wf1'' (ex_shape None None) 3
            ''NODENAME'' ''Chameleon:CHI@UC'' None None None None world0)
     = Inr (200, ''Node3'', ex_shape None None)"
proof -
  have 1: "fst (create_compute quiet_env (''Node'' @ str_nat 3) None None ''wf1''
      (ex_shape (Some ''w'') None) 3 ''NODENAME'' ''Exogeni:RENCI'' None None None None world0)
      = Inr (200, ''w'' @ str_nat 3, ex_shape (Some ''w'') None)"
    by (simp add: create_compute_def mb_create_compute_def quiet_env_def ex_shape_def Let_def
          sublist_code)
  have 2: "fst (create_compute quiet_env (''Node'' @ str_nat 3) None None ''wf1''
      (ex_shape (Some ''w'') None) 3 ''NODENAME'' ''Chameleon:CHI@UC'' None None None None world0)
      = Inr (200, ''wf1'' @ ''-'' @ ''w'' @ str_nat 3, ex_shape (Some ''w'') None)"
    by (simp add: create_compute_def mb_create_compute_def quiet_env_def ex_shape_def Let_def
          sublist_code)
  have 3: "fst (create_compute quiet_env (''Node'' @ str_nat 3) None None ''wf1''
      (ex_shape None None) 3 ''NODENAME'' ''Chameleon:CHI@UC'' None None None None world0)
      = Inr (200, ''Node'' @ str_nat 3, ex_shape None None)"
    by (simp add: create_compute_def mb_create_compute_def quiet_env_def ex_shape_def Let_def)
  show ?thesis
    using resolved_node_name[OF 1] resolved_node_name[OF 2] resolved_node_name[OF 3] 1 2 3
    by (simp add: str_nat.simps digit_char_def)
qed

section \<open>Template substitution: tokens consumed by a replacement\<close>


















section \<open>Argument checks of the create operation\<close>

lemma valid_octet_py_int: "valid_octet p \<Longrightarrow> py_int p = Inr (int (dec_val p))"
  by (simp add: valid_octet_def py_int_digits)

lemma digit_not_nul: "is_digit x \<Longrightarrow> x \<noteq> CHR 0x00"
  by (auto simp: is_digit_def)

lemma str_nat_no_nul: "CHR 0x00 \<notin> set (str_nat n)"
  using str_nat_digits[of n] digit_not_nul by (auto simp: list_all_iff)

lemma str_int_no_nul: "CHR 0x00 \<notin> set (str_int i)"
  by (simp add: str_int_def str_nat_no_nul)

lemma can_fit_total:
  assumes "dotted_quad ip"
  shows "\<exists>b. can_ip_satisfy_range ip m = Inr b"
proof -
  let ?ps = "split_on CHR ''.'' ip"
  from assms have len: "length ?ps = 4" and oct: "\<forall>p\<in>set ?ps. valid_octet p"
    by (auto simp: dotted_quad_def Let_def list_all_iff)
  from len have "?ps ! 3 \<in> set ?ps" by simp
  with oct have "valid_octet (?ps ! 3)" by blast
  then have i: "py_int (?ps ! 3) = Inr (int (dec_val (?ps ! 3)))" by (rule valid_octet_py_int)
  let ?j = "join_with ''.'' (?ps[3 := str_int (int (dec_val (?ps ! 3)) + m)])"
  have "CHR 0x00 \<notin> set ?j"
  proof
    assume "CHR 0x00 \<in> set ?j"
    with set_join_with[of "''.''" "?ps[3 := str_int (int (dec_val (?ps ! 3)) + m)]"]
    obtain p where p: "p \<in> set (?ps[3 := str_int (int (dec_val (?ps ! 3)) + m)])" "CHR 0x00 \<in> set p"
      by auto
    from p(1) set_update_subset_insert[of ?ps 3 "str_int (int (dec_val (?ps ! 3)) + m)"]
    have "p = str_int (int (dec_val (?ps ! 3)) + m) \<or> p \<in> set ?ps" by auto
    then show False
    proof
      assume "p = str_int (int (dec_val (?ps ! 3)) + m)"
      with p(2) str_int_no_nul show False by simp
    next
      assume "p \<in> set ?ps"
      with oct have "valid_octet p" by blast
      from valid_octet_chars[OF this p(2)] digit_not_nul show False by blast
    qed
  qed
  then have "\<exists>b. is_valid_ipv4_address ?j = Inr b"
    by (cases "dotted_quad ?j") (auto simp: is_valid_ipv4_address_def inet_pton_def)
  with len i show ?thesis by (simp add: can_ip_satisfy_range_def Let_def)
qed




text \<open>
  C4, as the code has it. The exogeni start address is checked first. When it is given
  without an exogeni worker count, \<^verbatim>\<open>args.exoworkers + 1\<close> raises TypeError (line 225) before
  the chameleon start address is looked at: the chameleon address \<open>10.0.0.250\<close> cannot take
  10 further addresses, yet the run ends with the uncaught exception and no error line.
\<close>

theorem range_error_not_reported_counterexample:
  "main fuel quiet_env
     (ex_args\<lparr>exogenisite := Some ''Exogeni:RENCI'', exodatadir := Some ''exo'',
              exoipStart := Some ''10.1.0.1'', exoworkers := None,
              chipStart := Some ''10.0.0.250'', chworkers := Some 9\<rparr>)
   = Some (Raised TypeError, \<lparr>calls = [], ipMap = [], errors = []\<rparr>)"
proof -
  have d: "dotted 10 1 0 1 = ''10.1.0.1''"
    by (simp add: dotted_def str_nat.simps digit_char_def)
  have v: "is_valid_ipv4_address ''10.1.0.1'' = Inr True"
    using is_valid_dotted[of 10 1 0 1, unfolded d] by simp
  show ?thesis
    by (simp add: main_def validate_create_def check_range_def ex_args_def v world0_def)
qed



section \<open>The call log of a pass, of a phase and of a run\<close>

lemma all_succeeded_simps [simp]:
  "all_succeeded []"
  "all_succeeded (e # evs) \<longleftrightarrow> \<not> is_failed e \<and> all_succeeded evs"
  "all_succeeded (xs @ ys) \<longleftrightarrow> all_succeeded xs \<and> all_succeeded ys"
  by (auto simp: all_succeeded_def)

lemma aborted_append: "all_succeeded xs \<Longrightarrow> aborted ys \<Longrightarrow> aborted (xs @ ys)"
  unfolding aborted_def
proof -
  assume a: "all_succeeded xs"
    and "\<exists>pre p r. ys = pre @ [CreateCompute p r, DeleteWorkflow] \<and> r \<noteq> 200 \<and> all_succeeded pre"
  then obtain pre p r where "ys = pre @ [CreateCompute p r, DeleteWorkflow]" "r \<noteq> 200" "all_succeeded pre"
    by blast
  with a have "xs @ ys = (xs @ pre) @ [CreateCompute p r, DeleteWorkflow] \<and> r \<noteq> 200 \<and> all_succeeded (xs @ pre)"
    by simp
  then show "\<exists>pre p r. xs @ ys = pre @ [CreateCompute p r, DeleteWorkflow] \<and> r \<noteq> 200 \<and> all_succeeded pre"
    by blast
qed

lemma aborted_single: "r \<noteq> 200 \<Longrightarrow> aborted [CreateCompute p r, DeleteWorkflow]"
  unfolding aborted_def by (rule exI[of _ "[]"]) simp

lemma aborted_not_clean: "aborted evs \<Longrightarrow> \<not> all_succeeded evs"
  by (auto simp: aborted_def)

lemma calls_record_call [simp]: "calls (record_call e w) = calls w @ [e]"
  "ipMap (record_call e w) = ipMap w" "errors (record_call e w) = errors w"
  by (simp_all add: record_call_def)

text \<open>What one call of \<^verbatim>\<open>create_compute\<close> leaves behind.\<close>

lemma create_compute_raises:
  assumes "create_compute E nm0 ipStart lease wfid md count old sitename ss stor subnet fwd w
             = (Inl e, w')"
  shows "calls w' = calls w"
  using assms
  by (auto simp: create_compute_def Let_def mb_create_compute_def
           split: option.splits sum.splits prod.splits)

lemma create_compute_returns:
  assumes "create_compute E nm0 ipStart lease wfid md count old sitename ss stor subnet fwd w
             = (Inr (r, nm, md'), w')"
  shows "calls w' = calls w @ [CreateCompute md' r]"
    and "r = compute_status E (length (filter is_compute (calls w)))"
    and "ipAddress md' = (case ipStart of None \<Rightarrow> ipAddress md | Some ip \<Rightarrow> Some ip)"
    and "ipMap w' = (case ipStart of None \<Rightarrow> ipMap w | Some ip \<Rightarrow> AList.update nm ip (ipMap w))"
    and "errors w' = errors w"
  using assms
  by (auto simp: create_compute_def Let_def mb_create_compute_def
           split: option.splits sum.splits prod.splits)

lemma create_compute_log:
  assumes "create_compute E nm0 ipStart lease wfid md count old sitename ss stor subnet fwd w
             = (res, w')"
  shows "case res of
           Inl e \<Rightarrow> calls w' = calls w
         | Inr (r, nm, md') \<Rightarrow> calls w' = calls w @ [CreateCompute md' r]"
  using assms create_compute_raises create_compute_returns(1)
  by (cases res) (auto split: prod.splits)

lemma provision_storage_log:
  assumes "provision_storage E a datadir sitename count ipStart ss sip es w = (res, w')"
  shows "\<exists>new. calls w' = calls w @ new \<and>
           (case res of
              Inl e \<Rightarrow> all_succeeded new
            | Inr (ok, rest) \<Rightarrow> if ok then all_succeeded new else aborted new)"
proof (cases "shape_files E (datadir @ ''/storage.json'')")
  case None
  with assms show ?thesis by (auto simp: provision_storage_def)
next
  case (Some f)
  define prep where "prep = (case postBootScript (f\<lparr>site := Some sitename\<rparr>) of
                      None \<Rightarrow> Inr (f\<lparr>site := Some sitename\<rparr>)
                    | Some s \<Rightarrow>
                        (case ipStart of
                           None \<Rightarrow> Inl AttributeError
                         | Some ip \<Rightarrow>
                             (case get_cidr_escape ip of
                                Inl e \<Rightarrow> Inl e
                              | Inr cidr \<Rightarrow>
                                  (let s1 = py_replace ''CIDR'' cidr s;
                                       s2 = (case sip of
                                               None \<Rightarrow> s1
                                             | Some x \<Rightarrow> py_replace ''SIP'' x s1)
                                   in Inr (f\<lparr>site := Some sitename, postBootScript := Some s2\<rparr>)))))"
  show ?thesis
  proof (cases prep)
    case (Inl e)
    with assms Some show ?thesis
      by (auto simp: provision_storage_def Let_def prep_def)
  next
    case (Inr stdata1)
    obtain cres w1 where cc: "create_compute E (''Node'' @ str_nat count) ipStart (leaseEndArg a)
                          (workflowId a) stdata1 count ''NODENAME'' sitename ss None es None w
                          = (cres, w1)" by (cases "create_compute E (''Node'' @ str_nat count) ipStart (leaseEndArg a)
                          (workflowId a) stdata1 count ''NODENAME'' sitename ss None es None w") 
    from assms Some Inr cc have res: "(res, w') = (case (cres, w1) of
                     (Inl e, w1) \<Rightarrow> (Inl e, w1)
                   | (Inr (r, nodename, md), w1) \<Rightarrow>
                       if r \<noteq> 200
                       then (Inr (False, count, None), record_call DeleteWorkflow w1)
                       else (Inr (True, count + 1, Some nodename), w1))"
      by (simp add: provision_storage_def Let_def prep_def)
    show ?thesis
    proof (cases cres)
      case (Inl e)
      with res create_compute_raises[of E _ ipStart _ _ stdata1] cc show ?thesis by auto
    next
      case (Inr t)
      obtain r nm md where t: "t = (r, nm, md)" by (cases t)
      from create_compute_returns(1)[OF cc[unfolded Inr t]] have "calls w1 = calls w @ [CreateCompute md r]" .
      with res Inr t show ?thesis
        by (cases "r = 200") (auto intro: aborted_single)
    qed
  qed
qed

lemma create_then_check:
  assumes cc: "create_compute E nm0 ipStart lease wfid md count old sitename ss stor subnet fwd w
                 = (cres, w1)"
    and res: "(res, w') =
                (case (cres, w1) of
                   (Inl e, w2) \<Rightarrow> (Inl e, w2)
                 | (Inr (r, nm, md'), w2) \<Rightarrow>
                     if r \<noteq> 200 then (Inr (False, x), record_call DeleteWorkflow w2)
                     else (Inr (True, y nm md'), w2))"
  shows "\<exists>new. calls w' = calls w @ new \<and>
           (case res of
              Inl e \<Rightarrow> all_succeeded new
            | Inr (ok, rest) \<Rightarrow> if ok then all_succeeded new else aborted new)"
proof (cases cres)
  case (Inl e)
  with res create_compute_raises[OF cc[unfolded Inl]] show ?thesis by auto
next
  case (Inr t)
  obtain r nm md' where t: "t = (r, nm, md')" by (cases t)
  from create_compute_returns(1)[OF cc[unfolded Inr t]]
  have "calls w1 = calls w @ [CreateCompute md' r]" .
  with res Inr t show ?thesis
    by (cases "r = 200") (auto intro: aborted_single)
qed

lemma provision_master_log:
  assumes "provision_master E a sitename ss stor subnet fwd mdata ipStart count w = (res, w')"
  shows "\<exists>new. calls w' = calls w @ new \<and>
           (case res of
              Inl e \<Rightarrow> all_succeeded new
            | Inr (ok, rest) \<Rightarrow> if ok then all_succeeded new else aborted new)"
proof (cases mdata)
  case None
  with assms show ?thesis by (auto simp: provision_master_def)
next
  case (Some md)
  show ?thesis
  proof (cases "if ipStart \<noteq> None \<and> stor \<noteq> None then advance_ip ipStart else Inr ipStart")
    case (Inl e)
    with assms Some show ?thesis by (auto simp: provision_master_def)
  next
    case (Inr ipStart1)
    obtain cres w1 where cc: "create_compute E (''Node'' @ str_nat count) ipStart1 (leaseEndArg a)
        (workflowId a) md count ''NODENAME'' sitename ss stor subnet fwd w = (cres, w1)"
      by fastforce
    show ?thesis
      by (rule create_then_check[OF cc, where x = "(count, ipStart1)"
               and y = "\<lambda>nm md'. (count + 1, ipStart1)"])
         (use assms Some Inr cc in \<open>simp add: provision_master_def split: sum.splits prod.splits\<close>)
  qed
qed

lemma provision_submit_log:
  assumes "provision_submit E a sitename ss stor subnet fwd sdata ipStart count w = (res, w')"
  shows "\<exists>new. calls w' = calls w @ new \<and>
           (case res of
              Inl e \<Rightarrow> all_succeeded new
            | Inr (ok, rest) \<Rightarrow> if ok then all_succeeded new else aborted new)"
proof (cases sdata)
  case None
  with assms show ?thesis by (auto simp: provision_submit_def)
next
  case (Some sd)
  show ?thesis
  proof (cases "advance_ip ipStart")
    case (Inl e)
    with assms Some show ?thesis by (auto simp: provision_submit_def)
  next
    case (Inr ipStart1)
    obtain cres w1 where cc: "create_compute E (''Node'' @ str_nat count) ipStart1 (leaseEndArg a)
        (workflowId a) sd count ''NODENAME'' sitename ss stor subnet fwd w = (cres, w1)"
      by fastforce
    show ?thesis
      by (rule create_then_check[OF cc, where x = "(count, ipStart1)"
               and y = "\<lambda>nm md'. (count + 1, ipStart1)"])
         (use assms Some Inr cc in \<open>simp add: provision_submit_def split: sum.splits prod.splits\<close>)
  qed
qed

lemma provision_workers_log:
  "provision_workers E a sitename ss stor subnet fwd k wdata old ipStart count w = (res, w')
   \<Longrightarrow> \<exists>new. calls w' = calls w @ new \<and>
           (case res of
              Inl e \<Rightarrow> all_succeeded new
            | Inr (ok, rest) \<Rightarrow> if ok then all_succeeded new else aborted new)"
proof (induction k arbitrary: wdata old ipStart count w)
  case 0
  then show ?case by auto
next
  case (Suc k)
  show ?case
  proof (cases "advance_ip ipStart")
    case (Inl e)
    with Suc.prems show ?thesis by auto
  next
    case (Inr ipStart1)
    obtain cres w1 where cc: "create_compute E (''Node'' @ str_nat count) ipStart1 (leaseEndArg a)
        (workflowId a) wdata count old sitename ss stor subnet fwd w = (cres, w1)"
      by fastforce
    show ?thesis
    proof (cases cres)
      case (Inl e)
      with Suc.prems Inr cc create_compute_raises[OF cc[unfolded Inl]] show ?thesis by auto
    next
      case r: (Inr t)
      obtain r nm wdata1 where t: "t = (r, nm, wdata1)" by (cases t)
      from create_compute_returns(1)[OF cc[unfolded r t]]
      have c1: "calls w1 = calls w @ [CreateCompute wdata1 r]" .
      show ?thesis
      proof (cases "r = 200")
        case False
        with Suc.prems Inr cc r t c1 show ?thesis by (auto intro: aborted_single)
      next
        case True
        with Suc.prems Inr cc r t
        have "provision_workers E a sitename ss stor subnet fwd k wdata1 nm ipStart1 (count + 1) w1
                = (res, w')" by simp
        from Suc.IH[OF this] obtain new where
          n: "calls w' = calls w1 @ new"
             "(case res of Inl e \<Rightarrow> all_succeeded new
               | Inr (ok, rest) \<Rightarrow> if ok then all_succeeded new else aborted new)" by blast
        have "calls w' = calls w @ (CreateCompute wdata1 r # new)" using n(1) c1 by simp
        moreover have "(case res of Inl e \<Rightarrow> all_succeeded (CreateCompute wdata1 r # new)
               | Inr (ok, rest) \<Rightarrow> if ok then all_succeeded (CreateCompute wdata1 r # new)
                                    else aborted (CreateCompute wdata1 r # new))"
          using n(2) True aborted_append[of "[CreateCompute wdata1 r]" new]
          by (auto split: sum.splits)
        ultimately show ?thesis by blast
      qed
    qed
  qed
qed

lemmas provision_storage_pass = provision_storage_log[folded pass_log_def]
lemmas provision_master_pass = provision_master_log[folded pass_log_def]
lemmas provision_submit_pass = provision_submit_log[folded pass_log_def]
lemmas provision_workers_pass = provision_workers_log[folded pass_log_def]

lemma provision_condor_cluster_pass:
  assumes "provision_condor_cluster E a datadir sitename count ipStart workers stor subnet fwd ss w
             = (res, w')"
  shows "\<exists>new. calls w' = calls w @ new \<and> pass_log res new"
proof -
  let ?f = "\<lambda>n. map_option (\<lambda>f. f\<lparr>site := Some sitename\<rparr>) (shape_files E (datadir @ n))"
  obtain r1 w1 where m: "provision_master E a sitename ss stor subnet fwd (?f ''/master.json'')
                           ipStart count w = (r1, w1)" by fastforce
  from provision_master_pass[OF m] obtain n1 where
    n1: "calls w1 = calls w @ n1" "pass_log r1 n1" by blast
  show ?thesis
  proof (cases r1)
    case (Inl e)
    with assms m n1 show ?thesis
      by (auto simp: provision_condor_cluster_def Let_def pass_log_def)
  next
    case (Inr t1)
    obtain ok1 c1 ip1 where t1: "t1 = (ok1, c1, ip1)" by (cases t1)
    show ?thesis
    proof (cases ok1)
      case False
      with assms m n1 Inr t1 show ?thesis
        by (auto simp: provision_condor_cluster_def Let_def pass_log_def)
    next
      case ok1: True
      obtain r2 w2 where s: "provision_submit E a sitename ss stor subnet fwd (?f ''/submit.json'')
                           ip1 c1 w1 = (r2, w2)" by fastforce
      from provision_submit_pass[OF s] obtain n2 where
        n2: "calls w2 = calls w1 @ n2" "pass_log r2 n2" by blast
      from n1 Inr t1 ok1 have a1: "all_succeeded n1" by (simp add: pass_log_def)
      show ?thesis
      proof (cases r2)
        case (Inl e)
        with assms m s Inr t1 ok1 have "res = Inl e" "w' = w2"
          by (auto simp: provision_condor_cluster_def Let_def)
        with n1 n2 a1 Inl show ?thesis by (auto simp: pass_log_def)
      next
        case r2: (Inr t2)
        obtain ok2 c2 ip2 where t2: "t2 = (ok2, c2, ip2)" by (cases t2)
        show ?thesis
        proof (cases ok2)
          case False
          with assms m s Inr t1 ok1 r2 t2 have "res = Inr (False, c2)" "w' = w2"
            by (auto simp: provision_condor_cluster_def Let_def)
          with n1 n2 a1 r2 t2 False show ?thesis
            by (auto simp: pass_log_def intro: aborted_append)
        next
          case ok2: True
          from n2 r2 t2 ok2 have a2: "all_succeeded n2" by (simp add: pass_log_def)
          show ?thesis
          proof (cases "?f ''/worker.json''")
            case None
            with assms m s Inr t1 ok1 r2 t2 ok2 have "res = Inr (True, c2)" "w' = w2"
              by (auto simp: provision_condor_cluster_def Let_def)
            with n1 n2 a1 a2 show ?thesis by (auto simp: pass_log_def)
          next
            case (Some wd)
            show ?thesis
            proof (cases workers)
              case None
              with assms m s Inr t1 ok1 r2 t2 ok2 Some have "res = Inl TypeError" "w' = w2"
                by (auto simp: provision_condor_cluster_def Let_def)
              with n1 n2 a1 a2 show ?thesis by (auto simp: pass_log_def)
            next
              case (Some n)
              with assms m s Inr t1 ok1 r2 t2 ok2 \<open>?f ''/worker.json'' = Some wd\<close>
              have "provision_workers E a sitename ss stor subnet fwd (nat n) wd ''NODENAME'' ip2 c2 w2
                      = (res, w')"
                by (auto simp: provision_condor_cluster_def Let_def)
              from provision_workers_pass[OF this] obtain n3 where
                n3: "calls w' = calls w2 @ n3" "pass_log res n3" by blast
              have "calls w' = calls w @ ((n1 @ n2) @ n3)" using n1 n2 n3 by simp
              moreover have "pass_log res ((n1 @ n2) @ n3)"
                using n3(2) a1 a2 aborted_append[of "n1 @ n2" n3]
                by (auto simp: pass_log_def split: sum.splits prod.splits if_splits)
              ultimately show ?thesis by blast
            qed
          qed
        qed
      qed
    qed
  qed
qed

lemma chameleon_storage_phase:
  assumes "chameleon_storage E a ss count w = (res, w')"
  shows "\<exists>new. calls w' = calls w @ new \<and> phase_log res new"
proof (cases "chameleonsite a")
  case None
  with assms show ?thesis by (auto simp: chameleon_storage_def phase_log_def)
next
  case s: (Some s)
  show ?thesis
  proof (cases "chdatadir a")
    case None
    with assms s show ?thesis by (auto simp: chameleon_storage_def phase_log_def)
  next
    case d: (Some d)
    show ?thesis
    proof (cases "cidr_opt (exoipStart a)")
      case (Inl e)
      with assms s d show ?thesis by (auto simp: chameleon_storage_def phase_log_def)
    next
      case (Inr es)
      obtain r1 w1 where p: "provision_storage E a d s count (chipStart a) ss None es w = (r1, w1)"
        by fastforce
      from provision_storage_pass[OF p] obtain new where
        n: "calls w1 = calls w @ new" "pass_log r1 new" by blast
      from assms s d Inr p have "w' = w1"
        by (auto simp: chameleon_storage_def split: sum.splits prod.splits bool.splits option.splits)
      moreover from assms s d Inr p n(2) have "phase_log res new"
        by (auto simp: chameleon_storage_def pass_log_def phase_log_def
                 split: sum.splits prod.splits bool.splits option.splits if_splits)
      ultimately show ?thesis using n(1) by blast
    qed
  qed
qed

lemma exogeni_storage_phase:
  assumes "exogeni_storage E a ss sip count w = (res, w')"
  shows "\<exists>new. calls w' = calls w @ new \<and> phase_log res new"
proof (cases "exogenisite a")
  case None
  with assms show ?thesis by (auto simp: exogeni_storage_def phase_log_def)
next
  case s: (Some s)
  show ?thesis
  proof (cases "exodatadir a")
    case None
    with assms s show ?thesis by (auto simp: exogeni_storage_def phase_log_def)
  next
    case d: (Some d)
    obtain r1 w1 where p: "provision_storage E a d s count (exoipStart a) ss sip None w = (r1, w1)"
      by fastforce
    from provision_storage_pass[OF p] obtain new where
      n: "calls w1 = calls w @ new" "pass_log r1 new" by blast
    from assms s d p have "w' = w1"
      by (auto simp: exogeni_storage_def split: sum.splits prod.splits bool.splits option.splits)
    moreover from assms s d p n(2) have "phase_log res new"
      by (auto simp: exogeni_storage_def pass_log_def phase_log_def
               split: sum.splits prod.splits bool.splits option.splits if_splits)
    ultimately show ?thesis using n(1) by blast
  qed
qed

lemma chameleon_cluster_phase:
  assumes "chameleon_cluster E a sd ss chn count w = (res, w')"
  shows "\<exists>new. calls w' = calls w @ new \<and> phase_log res new"
proof (cases "chameleonsite a")
  case None
  with assms show ?thesis by (auto simp: chameleon_cluster_def phase_log_def)
next
  case s: (Some s)
  show ?thesis
  proof (cases "chdatadir a")
    case None
    with assms s show ?thesis by (auto simp: chameleon_cluster_def phase_log_def)
  next
    case d: (Some d)
    show ?thesis
    proof (cases "cidr_opt (exoipStart a)")
      case (Inl e)
      with assms s d show ?thesis by (auto simp: chameleon_cluster_def phase_log_def)
    next
      case (Inr es)
      obtain r1 w1 where p: "provision_condor_cluster E a d s count (chipStart a) (chworkers a)
                                chn es (map_option stitch_ip sd) ss w = (r1, w1)"
        by fastforce
      from provision_condor_cluster_pass[OF p] obtain new where
        n: "calls w1 = calls w @ new" "pass_log r1 new" by blast
      from assms s d Inr p have "w' = w1"
        by (auto simp: chameleon_cluster_def split: sum.splits prod.splits bool.splits)
      moreover from assms s d Inr p n(2) have "phase_log res new"
        by (auto simp: chameleon_cluster_def pass_log_def phase_log_def
                 split: sum.splits prod.splits bool.splits if_splits)
      ultimately show ?thesis using n(1) by blast
    qed
  qed
qed

lemma exogeni_cluster_phase:
  assumes "exogeni_cluster E a ss exn count w = (res, w')"
  shows "\<exists>new. calls w' = calls w @ new \<and> phase_log res new"
proof (cases "exogenisite a")
  case None
  with assms show ?thesis by (auto simp: exogeni_cluster_def phase_log_def)
next
  case s: (Some s)
  show ?thesis
  proof (cases "exodatadir a")
    case None
    with assms s show ?thesis by (auto simp: exogeni_cluster_def phase_log_def)
  next
    case d: (Some d)
    show ?thesis
    proof (cases "cidr_opt (chipStart a)")
      case (Inl e)
      with assms s d show ?thesis by (auto simp: exogeni_cluster_def phase_log_def)
    next
      case (Inr cs)
      show ?thesis
      proof (cases "case exn of None \<Rightarrow> Inr None
                    | Some nm \<Rightarrow> (case map_of (ipMap w) nm of None \<Rightarrow> Inl KeyError
                                   | Some ip \<Rightarrow> Inr (Some ip))")
        case (Inl e)
        with assms s d Inr show ?thesis by (auto simp: exogeni_cluster_def phase_log_def)
      next
        case f: (Inr fwd)
        obtain r1 w1 where p: "provision_condor_cluster E a d s count (exoipStart a) (exoworkers a)
                                exn cs fwd ss w = (r1, w1)"
          by fastforce
        from provision_condor_cluster_pass[OF p] obtain new where
          n: "calls w1 = calls w @ new" "pass_log r1 new" by blast
        from assms s d Inr f p have "w' = w1"
          by (auto simp: exogeni_cluster_def split: sum.splits prod.splits bool.splits)
        moreover from assms s d Inr f p n(2) have "phase_log res new"
          by (auto simp: exogeni_cluster_def pass_log_def phase_log_def
                   split: sum.splits prod.splits bool.splits if_splits)
        ultimately show ?thesis using n(1) by blast
      qed
    qed
  qed
qed

lemma is_update_not_failed: "is_update e \<Longrightarrow> \<not> is_failed e"
  by (cases e) auto

lemma updates_all_succeeded: "list_all is_update evs \<Longrightarrow> all_succeeded evs"
  by (auto simp: all_succeeded_def list_all_iff dest: is_update_not_failed)

text \<open>The publisher only adds calls to the context service and leaves the map alone.\<close>

lemma published_refl: "published w w"
  by (simp add: published_def)

lemma published_trans: "published w w1 \<Longrightarrow> published w1 w2 \<Longrightarrow> published w w2"
  unfolding published_def by (metis append.assoc list_all_append)

lemma publish_node_published:
  "publish_node sl (sd, st, w) n = (sd', st', w') \<Longrightarrow> published w w'"
  by (auto simp: publish_node_def Let_def published_def)

lemma foldl_publish_node:
  "foldl (publish_node sl) (sd, st, w) ns = (sd', st', w') \<Longrightarrow> published w w'"
proof (induction ns arbitrary: sd st w)
  case Nil
  then show ?case by (simp add: published_refl)
next
  case (Cons n ns)
  obtain sd1 st1 w1 where 1: "publish_node sl (sd, st, w) n = (sd1, st1, w1)"
    by (cases "publish_node sl (sd, st, w) n") auto
  with Cons.prems have "foldl (publish_node sl) (sd1, st1, w1) ns = (sd', st', w')" by simp
  from Cons.IH[OF this] publish_node_published[OF 1] show ?case by (rule published_trans[rotated])
qed

lemma foldl_publish_slices:
  "foldl (\<lambda>acc1 s. foldl (publish_node (s_slice s)) acc1 (s_nodes s)) (sd, st, w) ss = (sd', st', w')
   \<Longrightarrow> published w w'"
proof (induction ss arbitrary: sd st w)
  case Nil
  then show ?case by (simp add: published_refl)
next
  case (Cons s ss)
  obtain sd1 st1 w1 where 1: "foldl (publish_node (s_slice s)) (sd, st, w) (s_nodes s) = (sd1, st1, w1)"
    by (cases "foldl (publish_node (s_slice s)) (sd, st, w) (s_nodes s)") auto
  with Cons.prems have "foldl (\<lambda>acc1 s. foldl (publish_node (s_slice s)) acc1 (s_nodes s))
                          (sd1, st1, w1) ss = (sd', st', w')" by simp
  from Cons.IH[OF this] foldl_publish_node[OF 1] show ?case by (rule published_trans[rotated])
qed

lemma publish_request_published:
  "publish_request (v, sd, st, w) req = (v', sd', st', w') \<Longrightarrow> published w w'"
  by (auto simp: publish_request_def Let_def dest: foldl_publish_slices)

lemma foldl_publish_request:
  "foldl publish_request (v, sd, st, w) reqs = (v', sd', st', w') \<Longrightarrow> published w w'"
proof (induction reqs arbitrary: v sd st w)
  case Nil
  then show ?case by (simp add: published_refl)
next
  case (Cons r rs)
  obtain v1 sd1 st1 w1 where 1: "publish_request (v, sd, st, w) r = (v1, sd1, st1, w1)"
    by (cases "publish_request (v, sd, st, w) r") auto
  with Cons.prems have "foldl publish_request (v1, sd1, st1, w1) rs = (v', sd', st', w')" by simp
  from Cons.IH[OF this] publish_request_published[OF 1] show ?case by (rule published_trans[rotated])
qed

lemma publish_context_published:
  "publish_context reqs sd w = (v', sd', st', w') \<Longrightarrow> published w w'"
  unfolding publish_context_def by (rule foldl_publish_request)

lemma mb_get_workflow_calls [simp]:
  "calls (snd (mb_get_workflow E w)) = calls w @ [GetWorkflow]"
  "ipMap (snd (mb_get_workflow E w)) = ipMap w"
  "fst (mb_get_workflow E w) = workflow_status E (length (filter (\<lambda>e. e = GetWorkflow) (calls w)))"
  by (simp_all add: mb_get_workflow_def)

lemma all_succeeded_polls [simp]: "all_succeeded (concat (replicate k [GetWorkflow, Sleep 5]))"
  by (induction k) auto

lemma wait_active_log:
  "wait_active fuel E sd st w = Some (r, w')
   \<Longrightarrow> \<exists>k. calls w' = calls w @ concat (replicate k [GetWorkflow, Sleep 5])"
proof (induction fuel arbitrary: st w)
  case 0
  then have "w' = w" by (auto split: if_splits)
  then have "calls w' = calls w @ concat (replicate 0 [GetWorkflow, Sleep 5])" by simp
  then show ?case by blast
next
  case (Suc fuel)
  show ?case
  proof (cases "st = Some ''Active'' \<or> sd = None")
    case True
    with Suc.prems have "w' = w" by (auto split: if_splits)
    then have "calls w' = calls w @ concat (replicate 0 [GetWorkflow, Sleep 5])" by simp
    then show ?thesis by blast
  next
    case False
    then obtain d where d: "sd = Some d" by auto
    define st1 where "st1 = (if wf_status (fst (mb_get_workflow E w)) = 200
                             then scan_target (target d) (wf_requests (fst (mb_get_workflow E w))) st
                             else st)"
    define w2 where "w2 = record_call (Sleep 5) (snd (mb_get_workflow E w))"
    from Suc.prems False d have "wait_active fuel E sd st1 w2 = Some (r, w')"
      by (simp add: st1_def w2_def split_beta Let_def)
    from Suc.IH[OF this] obtain k where "calls w' = calls w2 @ concat (replicate k [GetWorkflow, Sleep 5])"
      by blast
    then have "calls w' = calls w @ concat (replicate (Suc k) [GetWorkflow, Sleep 5])"
      by (simp add: w2_def)
    then show ?thesis by blast
  qed
qed

lemma perform_stitch_log:
  "perform_stitch E datadir vlan data w = (r, w')
   \<Longrightarrow> \<exists>new. calls w' = calls w @ new \<and> all_succeeded new"
  by (auto simp: perform_stitch_def split: option.splits sum.splits)

lemma stitching_log:
  assumes "stitching fuel E a v sd st w = Some (out, w')"
  shows "out \<noteq> Returned \<and> (\<exists>new. calls w' = calls w @ new \<and> all_succeeded new)"
proof (cases "\<exists>vlan s. v = Some vlan \<and> exogenisite a = Some s")
  case False
  with assms have "out = Exit 0" "w' = w"
    by (auto simp: stitching_def split: option.splits)
  then show ?thesis by simp
next
  case True
  then obtain vlan s where vs: "v = Some vlan" "exogenisite a = Some s" by blast
  from assms vs obtain r w1 where wa: "wait_active fuel E sd st w = Some (r, w1)"
    by (auto simp: stitching_def split: option.splits)
  from wait_active_log[OF wa] obtain k where
    k: "calls w1 = calls w @ concat (replicate k [GetWorkflow, Sleep 5])" by blast
  show ?thesis
  proof (cases r)
    case (Inl e)
    with assms vs wa have "out = Raised e" "w' = w1" by (auto simp: stitching_def)
    with k show ?thesis by auto
  next
    case (Inr u)
    obtain r2 w2 where ps: "perform_stitch E (exodatadir a) vlan sd (record_call (Sleep 60) w1) = (r2, w2)"
      by fastforce
    from perform_stitch_log[OF ps] obtain new where
      n: "calls w2 = calls (record_call (Sleep 60) w1) @ new" "all_succeeded new" by blast
    from assms vs wa Inr ps have "w' = w2" "out \<noteq> Returned"
      by (auto simp: stitching_def split: sum.splits)
    moreover have "calls w2 = calls w @ (concat (replicate k [GetWorkflow, Sleep 5]) @ Sleep 60 # new)"
      using n(1) k by simp
    moreover have "all_succeeded (concat (replicate k [GetWorkflow, Sleep 5]) @ Sleep 60 # new)"
      using n(2) by simp
    ultimately show ?thesis by blast
  qed
qed

lemma finish_create_log:
  assumes "finish_create fuel E a sd w = Some (out, w')"
  shows "out \<noteq> Returned \<and> (\<exists>new. calls w' = calls w @ new \<and> all_succeeded new)"
proof -
  obtain resp w1 where g: "mb_get_workflow E w = (resp, w1)" by fastforce
  then have c1: "calls w1 = calls w @ [GetWorkflow]"
    using mb_get_workflow_calls(1)[of E w] by simp
  show ?thesis
  proof (cases "wf_status resp = 200 \<and> comethost a \<noteq> None")
    case True
    obtain v sd1 st w2 where p: "publish_context (wf_requests resp) sd w1 = (v, sd1, st, w2)"
      by (cases "publish_context (wf_requests resp) sd w1") auto
    from publish_context_published[OF p] obtain n1 where
      n1: "calls w2 = calls w1 @ n1" "list_all is_update n1" by (auto simp: published_def)
    from assms g True p have "stitching fuel E a v sd1 st w2 = Some (out, w')"
      by (simp add: finish_create_def)
    from stitching_log[OF this] obtain n2 where
      n2: "out \<noteq> Returned" "calls w' = calls w2 @ n2" "all_succeeded n2" by blast
    have "calls w' = calls w @ (GetWorkflow # n1 @ n2)" using c1 n1 n2 by simp
    moreover have "all_succeeded (GetWorkflow # n1 @ n2)"
      using n1(2) n2(3) by (simp add: updates_all_succeeded)
    ultimately show ?thesis using n2(1) by blast
  next
    case False
    with assms g have "stitching fuel E a None sd None w1 = Some (out, w')"
      by (auto simp: finish_create_def)
    from stitching_log[OF this] obtain n2 where
      n2: "out \<noteq> Returned" "calls w' = calls w1 @ n2" "all_succeeded n2" by blast
    have "calls w' = calls w @ (GetWorkflow # n2)" using c1 n2 by simp
    moreover have "all_succeeded (GetWorkflow # n2)" using n2(3) by simp
    ultimately show ?thesis using n2(1) by blast
  qed
qed

lemma phase_stops:
  "phase_log (Inl out) n \<Longrightarrow> all_succeeded pre \<Longrightarrow> run_log out (pre @ n)"
  by (auto simp: phase_log_def run_log_def intro: aborted_append)

lemma phase_goes_on:
  "phase_log (Inr x) n \<Longrightarrow> all_succeeded pre \<Longrightarrow> all_succeeded (pre @ n)"
  by (auto simp: phase_log_def)

lemma main_create_log:
  assumes "main_create fuel E a w0 = Some (out, w)"
  shows "\<exists>new. calls w = calls w0 @ new \<and> run_log out new"
proof (cases "create_workflow_status E = 200")
  case False
  with assms have "out = Exit 0" "w = record_call CreateWorkflow w0"
    by (auto simp: main_create_def Let_def)
  then have "calls w = calls w0 @ [CreateWorkflow]" "run_log out [CreateWorkflow]"
    by (simp_all add: run_log_def)
  then show ?thesis by blast
next
  case True
  define w1 where "w1 = record_call CreateWorkflow w0"
  have c1: "calls w1 = calls w0 @ [CreateWorkflow]" by (simp add: w1_def)
  show ?thesis
  proof (cases "read_stitch_hints E a")
    case (Inl e)
    with assms True have "out = Raised e" "w = w1"
      by (auto simp: main_create_def Let_def w1_def)
    with c1 have "calls w = calls w0 @ [CreateWorkflow]" "run_log out [CreateWorkflow]"
      by (simp_all add: run_log_def)
    then show ?thesis by blast
  next
    case (Inr h)
    obtain sd sip ss where h: "h = (sd, sip, ss)" by (cases h)
    obtain r2 w2 where p2: "chameleon_storage E a ss 0 w1 = (r2, w2)" by fastforce
    from chameleon_storage_phase[OF p2] obtain n2 where
      n2: "calls w2 = calls w1 @ n2" "phase_log r2 n2" by blast
    show ?thesis
    proof (cases r2)
      case (Inl o2)
      with assms True Inr h p2 have "out = o2" "w = w2"
        by (auto simp: main_create_def Let_def w1_def)
      moreover have "calls w2 = calls w0 @ ([CreateWorkflow] @ n2)" using c1 n2 by simp
      moreover have "run_log o2 ([CreateWorkflow] @ n2)"
        using phase_stops[OF n2(2)[unfolded Inl], of "[CreateWorkflow]"] by simp
      ultimately show ?thesis by blast
    next
      case r2: (Inr x2)
      obtain count2 chn where x2: "x2 = (count2, chn)" by (cases x2)
      have a2: "all_succeeded ([CreateWorkflow] @ n2)"
        using phase_goes_on[OF n2(2)[unfolded r2], of "[CreateWorkflow]"] by simp
      obtain r3 w3 where p3: "exogeni_storage E a ss sip count2 w2 = (r3, w3)" by fastforce
      from exogeni_storage_phase[OF p3] obtain n3 where
        n3: "calls w3 = calls w2 @ n3" "phase_log r3 n3" by blast
      show ?thesis
      proof (cases r3)
        case (Inl o3)
        with assms True Inr h p2 r2 x2 p3 have "out = o3" "w = w3"
          by (auto simp: main_create_def Let_def w1_def)
        moreover have "calls w3 = calls w0 @ (([CreateWorkflow] @ n2) @ n3)" using c1 n2 n3 by simp
        moreover have "run_log o3 (([CreateWorkflow] @ n2) @ n3)"
          using phase_stops[OF n3(2)[unfolded Inl] a2] .
        ultimately show ?thesis by blast
      next
        case r3: (Inr x3)
        obtain count3 exn where x3: "x3 = (count3, exn)" by (cases x3)
        have a3: "all_succeeded (([CreateWorkflow] @ n2) @ n3)"
          using phase_goes_on[OF n3(2)[unfolded r3] a2] .
        obtain r4 w4 where p4: "chameleon_cluster E a sd ss chn count3 w3 = (r4, w4)" by fastforce
        from chameleon_cluster_phase[OF p4] obtain n4 where
          n4: "calls w4 = calls w3 @ n4" "phase_log r4 n4" by blast
        show ?thesis
        proof (cases r4)
          case (Inl o4)
          with assms True Inr h p2 r2 x2 p3 r3 x3 p4 have "out = o4" "w = w4"
            by (auto simp: main_create_def Let_def w1_def)
          moreover have "calls w4 = calls w0 @ ((([CreateWorkflow] @ n2) @ n3) @ n4)"
            using c1 n2 n3 n4 by simp
          moreover have "run_log o4 ((([CreateWorkflow] @ n2) @ n3) @ n4)"
            using phase_stops[OF n4(2)[unfolded Inl] a3] .
          ultimately show ?thesis by blast
        next
          case r4: (Inr count4)
          have a4: "all_succeeded ((([CreateWorkflow] @ n2) @ n3) @ n4)"
            using phase_goes_on[OF n4(2)[unfolded r4] a3] .
          obtain r5 w5 where p5: "exogeni_cluster E a ss exn count4 w4 = (r5, w5)" by fastforce
          from exogeni_cluster_phase[OF p5] obtain n5 where
            n5: "calls w5 = calls w4 @ n5" "phase_log r5 n5" by blast
          show ?thesis
          proof (cases r5)
            case (Inl o5)
            with assms True Inr h p2 r2 x2 p3 r3 x3 p4 r4 p5 have "out = o5" "w = w5"
              by (auto simp: main_create_def Let_def w1_def)
            moreover have "calls w5 = calls w0 @ (((([CreateWorkflow] @ n2) @ n3) @ n4) @ n5)"
              using c1 n2 n3 n4 n5 by simp
            moreover have "run_log o5 (((([CreateWorkflow] @ n2) @ n3) @ n4) @ n5)"
              using phase_stops[OF n5(2)[unfolded Inl] a4] .
            ultimately show ?thesis by blast
          next
            case r5: (Inr count5)
            have a5: "all_succeeded (((([CreateWorkflow] @ n2) @ n3) @ n4) @ n5)"
              using phase_goes_on[OF n5(2)[unfolded r5] a4] .
            from assms True Inr h p2 r2 x2 p3 r3 x3 p4 r4 p5 r5
            have "finish_create fuel E a sd w5 = Some (out, w)"
              by (auto simp: main_create_def Let_def w1_def)
            from finish_create_log[OF this] obtain n6 where
              n6: "out \<noteq> Returned" "calls w = calls w5 @ n6" "all_succeeded n6" by blast
            have "calls w = calls w0 @ ((((([CreateWorkflow] @ n2) @ n3) @ n4) @ n5) @ n6)"
              using c1 n2 n3 n4 n5 n6 by simp
            moreover have "run_log out ((((([CreateWorkflow] @ n2) @ n3) @ n4) @ n5) @ n6)"
              using n6(1,3) a5 by (simp add: run_log_def)
            ultimately show ?thesis by blast
          qed
        qed
      qed
    qed
  qed
qed

lemma main_log:
  assumes "main fuel E a = Some (out, w)"
  shows "run_log out (calls w)"
proof -
  consider "operation a = ''get''" | "operation a \<noteq> ''get''" "operation a = ''delete''"
    | "operation a = ''create''" | "operation a \<noteq> ''get''" "operation a \<noteq> ''delete''" "operation a \<noteq> ''create''"
    by blast
  then show ?thesis
  proof cases
    case 1
    with assms show ?thesis by (auto simp: main_def run_log_def world0_def)
  next
    case 2
    with assms show ?thesis by (auto simp: main_def run_log_def world0_def Let_def)
  next
    case 3
    then have ng: "operation a \<noteq> ''get''" "operation a \<noteq> ''delete''" by simp_all
    show ?thesis
    proof (cases "validate_create a")
      case (Inl e)
      with assms 3 show ?thesis by (auto simp: main_def run_log_def world0_def)
    next
      case (Inr m)
      show ?thesis
      proof (cases m)
        case None
        with assms 3 Inr have "main_create fuel E a world0 = Some (out, w)"
          by (simp add: main_def)
        from main_create_log[OF this] show ?thesis by (auto simp: world0_def)
      next
        case (Some msg)
        with assms 3 Inr show ?thesis by (auto simp: main_def run_log_def world0_def)
      qed
    qed
  next
    case 4
    with assms show ?thesis by (auto simp: main_def run_log_def world0_def)
  qed
qed

lemma aborted_failed_last:
  assumes "aborted evs" "CreateCompute p r \<in> set evs" "r \<noteq> 200"
  shows "\<exists>pre. evs = pre @ [CreateCompute p r, DeleteWorkflow] \<and> all_succeeded pre"
proof -
  from assms(1) obtain pre p' r' where
    e: "evs = pre @ [CreateCompute p' r', DeleteWorkflow]" "r' \<noteq> 200" "all_succeeded pre"
    by (auto simp: aborted_def)
  from assms(2,3) e(3) have "CreateCompute p r \<notin> set pre"
    by (auto simp: all_succeeded_def)
  with assms(2) e(1) have "CreateCompute p r = CreateCompute p' r'" by auto
  with e show ?thesis by blast
qed

lemma failed_not_all_succeeded:
  "CreateCompute p r \<in> set evs \<Longrightarrow> r \<noteq> 200 \<Longrightarrow> \<not> all_succeeded evs"
  unfolding all_succeeded_def by (metis is_failed.simps(1))

lemma ex_addr:
  "dotted_quad ''10.0.0.10''"
  "can_ip_satisfy_range ''10.0.0.10'' 3 = Inr True"
  "get_next_ip ''10.0.0.10'' = Inr ''10.0.0.11''"
  "get_next_ip ''10.0.0.11'' = Inr ''10.0.0.12''"
  "get_next_ip ''10.0.0.12'' = Inr ''10.0.0.13''"
  "get_next_ip ''10.0.0.13'' = Inr ''10.0.0.14''"
  "is_valid_ipv4_address ''10.0.0.10'' = Inr True"
  using is_valid_dotted_iff[of 10 0 0 10] can_fit_dotted[of 10 0 0 3 10]
    get_next_ip_dotted[of 10 0 0 10] get_next_ip_dotted[of 10 0 0 11]
    get_next_ip_dotted[of 10 0 0 12] get_next_ip_dotted[of 10 0 0 13]
    is_valid_dotted[of 10 0 0 10]
  by (simp_all add: dotted_def str_nat.simps digit_char_def)

lemma scenario3:
  "main 0 (ex_env (\<lambda>k. if k = 1 then 500 else 200)) ex_args
   = Some (Returned,
       \<lparr>calls = [CreateWorkflow,
                 CreateCompute (ex_shape (Some ''storage'') None
                                  \<lparr>site := Some ''Chameleon:CHI@UC'', ipAddress := Some ''10.0.0.10''\<rparr>) 200,
                 CreateCompute (ex_shape (Some ''master'') (Some ''id=wf1 me=wf1-master1 ip=10.0.0.11'')
                                  \<lparr>site := Some ''Chameleon:CHI@UC'', ipAddress := Some ''10.0.0.11''\<rparr>) 500,
                 DeleteWorkflow],
        ipMap = [(''wf1-storage0'', ''10.0.0.10''), (''wf1-master1'', ''10.0.0.11'')],
        errors = []\<rparr>)"
  by (simp add: main_def validate_create_def check_range_def ex_args_def ex_addr
        main_create_def read_stitch_hints_def chameleon_storage_def cidr_opt_def
        provision_storage_def create_compute_def mb_create_compute_def record_call_def
        exogeni_storage_def chameleon_cluster_def provision_condor_cluster_def
        provision_master_def advance_ip_def get_default_ip_for_condor_def
        render_script_def py_replace_def str_opt_def
        ex_env_def ex_files_def ex_shape_def world0_def Let_def
        str_nat.simps digit_char_def sublist_code)

lemma pass_log_failed:
  assumes "pass_log res new" "CreateCompute p r \<in> set new" "r \<noteq> 200"
  shows "(\<exists>rest. res = Inr (False, rest))
         \<and> (\<exists>pre. new = pre @ [CreateCompute p r, DeleteWorkflow] \<and> all_succeeded pre)"
proof -
  from failed_not_all_succeeded[OF assms(2,3)] assms(1)
  have "(\<exists>rest. res = Inr (False, rest)) \<and> aborted new"
    by (auto simp: pass_log_def split: sum.splits prod.splits if_splits)
  with aborted_failed_last[OF _ assms(2,3)] show ?thesis by blast
qed

text \<open>
  C1. In the storage pass and in the cluster pass (master, submit, workers), a node
  creation answered with a status other than 200 is followed by \<^verbatim>\<open>delete_workflow\<close> and by
  nothing else, and the pass reports failure; all creations before it had succeeded, so
  it is the first failure and it is not retried. In a whole run of \<^verbatim>\<open>main\<close>, the log then
  ends with that creation and the deletion, and \<^verbatim>\<open>main\<close> returns: no later node creation,
  on this site or the next, and no publishing.
\<close>

theorem abort_on_failed_creation:
  "(provision_storage E a datadir sitename count ipStart ss sip es w = (res1, w1) \<longrightarrow>
      (\<exists>new. calls w1 = calls w @ new \<and>
         (\<forall>p r. CreateCompute p r \<in> set new \<and> r \<noteq> 200 \<longrightarrow>
            (\<exists>rest. res1 = Inr (False, rest))
            \<and> (\<exists>pre. new = pre @ [CreateCompute p r, DeleteWorkflow] \<and> all_succeeded pre))))
   \<and> (provision_condor_cluster E a datadir sitename count ipStart workers stor subnet fwd ss w
         = (res2, w2) \<longrightarrow>
      (\<exists>new. calls w2 = calls w @ new \<and>
         (\<forall>p r. CreateCompute p r \<in> set new \<and> r \<noteq> 200 \<longrightarrow>
            (\<exists>rest. res2 = Inr (False, rest))
            \<and> (\<exists>pre. new = pre @ [CreateCompute p r, DeleteWorkflow] \<and> all_succeeded pre))))
   \<and> (main fuel E a = Some (out, w3) \<longrightarrow>
         (\<forall>p r. CreateCompute p r \<in> set (calls w3) \<and> r \<noteq> 200 \<longrightarrow>
            out = Returned
            \<and> (\<exists>pre. calls w3 = pre @ [CreateCompute p r, DeleteWorkflow] \<and> all_succeeded pre)))"
proof (intro conjI impI)
  assume "provision_storage E a datadir sitename count ipStart ss sip es w = (res1, w1)"
  from provision_storage_pass[OF this] obtain new where
    n: "calls w1 = calls w @ new" "pass_log res1 new" by blast
  from pass_log_failed[OF n(2)] n(1)
  show "\<exists>new. calls w1 = calls w @ new \<and>
         (\<forall>p r. CreateCompute p r \<in> set new \<and> r \<noteq> 200 \<longrightarrow>
            (\<exists>rest. res1 = Inr (False, rest))
            \<and> (\<exists>pre. new = pre @ [CreateCompute p r, DeleteWorkflow] \<and> all_succeeded pre))"
    by blast
next
  assume "provision_condor_cluster E a datadir sitename count ipStart workers stor subnet fwd ss w
            = (res2, w2)"
  from provision_condor_cluster_pass[OF this] obtain new where
    n: "calls w2 = calls w @ new" "pass_log res2 new" by blast
  from pass_log_failed[OF n(2)] n(1)
  show "\<exists>new. calls w2 = calls w @ new \<and>
         (\<forall>p r. CreateCompute p r \<in> set new \<and> r \<noteq> 200 \<longrightarrow>
            (\<exists>rest. res2 = Inr (False, rest))
            \<and> (\<exists>pre. new = pre @ [CreateCompute p r, DeleteWorkflow] \<and> all_succeeded pre))"
    by blast
next
  assume "main fuel E a = Some (out, w3)"
  from main_log[OF this] have l: "run_log out (calls w3)" .
  show "\<forall>p r. CreateCompute p r \<in> set (calls w3) \<and> r \<noteq> 200 \<longrightarrow>
            out = Returned
            \<and> (\<exists>pre. calls w3 = pre @ [CreateCompute p r, DeleteWorkflow] \<and> all_succeeded pre)"
  proof (intro allI impI)
    fix p r
    assume f: "CreateCompute p r \<in> set (calls w3) \<and> r \<noteq> 200"
    with l failed_not_all_succeeded[of p r "calls w3"] have "out = Returned" "aborted (calls w3)"
      by (auto simp: run_log_def split: if_splits)
    with aborted_failed_last[of "calls w3" p r] f
    show "out = Returned
            \<and> (\<exists>pre. calls w3 = pre @ [CreateCompute p r, DeleteWorkflow] \<and> all_succeeded pre)"
      by blast
  qed
qed

theorem abort_on_failed_creation_witness:
  "main 0 (ex_env (\<lambda>k. if k = 1 then 500 else 200)) ex_args
   = Some (Returned,
       \<lparr>calls = [CreateWorkflow,
                 CreateCompute (ex_shape (Some ''storage'') None
                                  \<lparr>site := Some ''Chameleon:CHI@UC'', ipAddress := Some ''10.0.0.10''\<rparr>) 200,
                 CreateCompute (ex_shape (Some ''master'') (Some ''id=wf1 me=wf1-master1 ip=10.0.0.11'')
                                  \<lparr>site := Some ''Chameleon:CHI@UC'', ipAddress := Some ''10.0.0.11''\<rparr>) 500,
                 DeleteWorkflow],
        ipMap = [(''wf1-storage0'', ''10.0.0.10''), (''wf1-master1'', ''10.0.0.11'')],
        errors = []\<rparr>)
   \<and> provision_condor_cluster (ex_env (\<lambda>k. 500)) ex_args ''data'' ''Chameleon:CHI@UC'' 1
        (Some ''10.0.0.10'') (Some 2) (Some ''wf1-storage0.novalocal'') None None None world0
     = (Inr (False, 1),
        \<lparr>calls = [CreateCompute (ex_shape (Some ''master'') (Some ''id=wf1 me=wf1-master1 ip=10.0.0.11'')
                                  \<lparr>site := Some ''Chameleon:CHI@UC'', ipAddress := Some ''10.0.0.11''\<rparr>) 500,
                  DeleteWorkflow],
         ipMap = [(''wf1-master1'', ''10.0.0.11'')], errors = []\<rparr>)
   \<and> provision_storage (ex_env (\<lambda>k. 500)) ex_args ''data'' ''Chameleon:CHI@UC'' 0
        (Some ''10.0.0.10'') None None None world0
     = (Inr (False, 0, None),
        \<lparr>calls = [CreateCompute (ex_shape (Some ''storage'') None
                                  \<lparr>site := Some ''Chameleon:CHI@UC'', ipAddress := Some ''10.0.0.10''\<rparr>) 500,
                  DeleteWorkflow],
         ipMap = [(''wf1-storage0'', ''10.0.0.10'')], errors = []\<rparr>)"
proof -
  let ?st = "ex_shape (Some ''storage'') None
               \<lparr>site := Some ''Chameleon:CHI@UC'', ipAddress := Some ''10.0.0.10''\<rparr>"
  let ?ms = "ex_shape (Some ''master'') (Some ''id=wf1 me=wf1-master1 ip=10.0.0.11'')
               \<lparr>site := Some ''Chameleon:CHI@UC'', ipAddress := Some ''10.0.0.11''\<rparr>"
  let ?w3 = "\<lparr>calls = [CreateWorkflow, CreateCompute ?st 200, CreateCompute ?ms 500, DeleteWorkflow],
              ipMap = [(''wf1-storage0'', ''10.0.0.10''), (''wf1-master1'', ''10.0.0.11'')],
              errors = []\<rparr>"
  let ?w2 = "\<lparr>calls = [CreateCompute ?ms 500, DeleteWorkflow],
              ipMap = [(''wf1-master1'', ''10.0.0.11'')], errors = []\<rparr>"
  let ?w1 = "\<lparr>calls = [CreateCompute ?st 500, DeleteWorkflow],
              ipMap = [(''wf1-storage0'', ''10.0.0.10'')], errors = []\<rparr>"
  have m: "main 0 (ex_env (\<lambda>k. if k = 1 then 500 else 200)) ex_args = Some (Returned, ?w3)"
    by (simp add: main_def validate_create_def check_range_def ex_args_def ex_addr
        main_create_def read_stitch_hints_def chameleon_storage_def cidr_opt_def
        provision_storage_def create_compute_def mb_create_compute_def record_call_def
        exogeni_storage_def chameleon_cluster_def provision_condor_cluster_def
        provision_master_def advance_ip_def get_default_ip_for_condor_def
        render_script_def py_replace_def str_opt_def
        ex_env_def ex_files_def ex_shape_def world0_def Let_def
        str_nat.simps digit_char_def sublist_code)
  have c: "provision_condor_cluster (ex_env (\<lambda>k. 500)) ex_args ''data'' ''Chameleon:CHI@UC'' 1
        (Some ''10.0.0.10'') (Some 2) (Some ''wf1-storage0.novalocal'') None None None world0
     = (Inr (False, 1), ?w2)"
    by (simp add: ex_args_def ex_addr create_compute_def mb_create_compute_def record_call_def
        provision_condor_cluster_def provision_master_def advance_ip_def
        get_default_ip_for_condor_def render_script_def py_replace_def str_opt_def
        ex_env_def ex_files_def ex_shape_def world0_def Let_def
        str_nat.simps digit_char_def sublist_code)
  have s: "provision_storage (ex_env (\<lambda>k. 500)) ex_args ''data'' ''Chameleon:CHI@UC'' 0
        (Some ''10.0.0.10'') None None None world0 = (Inr (False, 0, None), ?w1)"
    by (simp add: ex_args_def ex_addr create_compute_def mb_create_compute_def record_call_def
        provision_storage_def get_default_ip_for_condor_def
        ex_env_def ex_files_def ex_shape_def world0_def Let_def
        str_nat.simps digit_char_def sublist_code)
  from abort_on_failed_creation[where E = "ex_env (\<lambda>k. if k = 1 then 500 else 200)"
      and a = ex_args and fuel = 0 and out = Returned and ?w3.0 = ?w3, THEN conjunct2, THEN conjunct2, THEN mp, OF m]
  have "\<exists>pre. calls ?w3 = pre @ [CreateCompute ?ms 500, DeleteWorkflow] \<and> all_succeeded pre"
    by simp
  with m c s show ?thesis by simp
qed

section \<open>Passes in which every creation succeeds\<close>

lemma valid_address_parts: "dotted_quad ip \<Longrightarrow> length (split_on CHR ''.'' ip) = 4"
  by (simp add: dotted_quad_def Let_def)

lemma valid_address_helpers:
  assumes "dotted_quad ip"
  shows "\<exists>x. get_default_ip_for_condor ip = Inr x" "\<exists>x. get_cidr_escape ip = Inr x"
    "\<exists>x. get_cidr ip = Inr x"
  using valid_address_parts[OF assms]
  by (simp_all add: get_default_ip_for_condor_def get_cidr_escape_def get_cidr_def)

lemma touched_trans: "touched md ip p \<Longrightarrow> touched p ip' p' \<Longrightarrow> touched md ip' p'"
  by (cases md, cases p, cases p') (simp add: touched_def)

lemma touched_prefix: "touched md ip p \<Longrightarrow> hostNamePrefix p = hostNamePrefix md"
  by (cases md, cases p) (simp add: touched_def)

lemma create_compute_success:
  assumes "dotted_quad ip"
    and "compute_status E (length (filter is_compute (calls w))) = 200"
  shows "\<exists>p. create_compute E (''Node'' @ str_nat count) (Some ip) lease wfid md count old sitename
                ss stor subnet fwd w
              = (Inr (200, node_name wfid sitename (hostNamePrefix md) count, p),
                 w\<lparr>calls := calls w @ [CreateCompute p 200],
                   ipMap := AList.update (node_name wfid sitename (hostNamePrefix md) count) ip
                              (ipMap w)\<rparr>)
            \<and> touched md ip p"
proof -
  from valid_address_helpers(1)[OF assms(1)] obtain x where "get_default_ip_for_condor ip = Inr x" ..
  with assms(2) show ?thesis
    by (cases md)
       (auto simp: create_compute_def mb_create_compute_def record_call_def Let_def node_name_def
          touched_def split: option.splits)
qed

lemma provision_storage_success:
  assumes "shape_files E (datadir @ ''/storage.json'') = Some f"
    and "dotted_quad ip"
    and "compute_status E (length (filter is_compute (calls w))) = 200"
  shows "\<exists>p. provision_storage E a datadir sitename count (Some ip) ss sip es w
              = (Inr (True, count + 1,
                      Some (node_name (workflowId a) sitename (hostNamePrefix f) count)),
                 w\<lparr>calls := calls w @ [CreateCompute p 200],
                   ipMap := AList.update (node_name (workflowId a) sitename (hostNamePrefix f) count)
                              ip (ipMap w)\<rparr>)
            \<and> assigned f sitename ip p"
proof -
  from valid_address_helpers(2)[OF assms(2)] obtain cidr where c: "get_cidr_escape ip = Inr cidr" ..
  define stdata1 where
    "stdata1 = (case postBootScript f of
                  None \<Rightarrow> f\<lparr>site := Some sitename\<rparr>
                | Some s \<Rightarrow> f\<lparr>site := Some sitename,
                             postBootScript := Some (case sip of None \<Rightarrow> py_replace ''CIDR'' cidr s
                                  | Some x \<Rightarrow> py_replace ''SIP'' x (py_replace ''CIDR'' cidr s))\<rparr>)"
  have t0: "touched (f\<lparr>site := Some sitename\<rparr>) ip (stdata1\<lparr>ipAddress := Some ip\<rparr>)"
    and hp: "hostNamePrefix stdata1 = hostNamePrefix f"
    by (cases f; simp add: stdata1_def touched_def split: option.splits)+
  from create_compute_success[OF assms(2,3), of count "leaseEndArg a" "workflowId a" stdata1
      "''NODENAME''" sitename ss None es None]
  obtain p where p: "create_compute E (''Node'' @ str_nat count) (Some ip) (leaseEndArg a)
        (workflowId a) stdata1 count ''NODENAME'' sitename ss None es None w
      = (Inr (200, node_name (workflowId a) sitename (hostNamePrefix f) count, p),
         w\<lparr>calls := calls w @ [CreateCompute p 200],
           ipMap := AList.update (node_name (workflowId a) sitename (hostNamePrefix f) count) ip
                      (ipMap w)\<rparr>)"
      "touched stdata1 ip p"
    by (auto simp: hp)
  have "touched (stdata1\<lparr>ipAddress := Some ip\<rparr>) ip p"
    using p(2) by (cases stdata1, cases p) (simp add: touched_def)
  with t0 have "assigned f sitename ip p" unfolding assigned_def by (rule touched_trans)
  moreover have "provision_storage E a datadir sitename count (Some ip) ss sip es w
              = (Inr (True, count + 1,
                      Some (node_name (workflowId a) sitename (hostNamePrefix f) count)),
                 w\<lparr>calls := calls w @ [CreateCompute p 200],
                   ipMap := AList.update (node_name (workflowId a) sitename (hostNamePrefix f) count)
                              ip (ipMap w)\<rparr>)"
    using assms(1) c p(1)
    by (cases "postBootScript f"; cases sip)
       (simp_all add: provision_storage_def Let_def stdata1_def)
  ultimately show ?thesis by blast
qed

lemma provision_master_success:
  assumes "get_next_ip ip = Inr ip1" "dotted_quad ip1"
    and "compute_status E (length (filter is_compute (calls w))) = 200"
  shows "\<exists>p. provision_master E a sitename ss (Some sn) subnet fwd (Some md) (Some ip) count w
              = (Inr (True, count + 1, Some ip1),
                 w\<lparr>calls := calls w @ [CreateCompute p 200],
                   ipMap := AList.update (node_name (workflowId a) sitename (hostNamePrefix md) count)
                              ip1 (ipMap w)\<rparr>)
            \<and> touched md ip1 p"
proof -
  from create_compute_success[OF assms(2,3), of count "leaseEndArg a" "workflowId a" md
      "''NODENAME''" sitename ss "Some sn" subnet fwd]
  obtain p where p: "create_compute E (''Node'' @ str_nat count) (Some ip1) (leaseEndArg a)
        (workflowId a) md count ''NODENAME'' sitename ss (Some sn) subnet fwd w
      = (Inr (200, node_name (workflowId a) sitename (hostNamePrefix md) count, p),
         w\<lparr>calls := calls w @ [CreateCompute p 200],
           ipMap := AList.update (node_name (workflowId a) sitename (hostNamePrefix md) count) ip1
                      (ipMap w)\<rparr>)"
      "touched md ip1 p"
    by auto
  with assms(1) show ?thesis
    by (auto simp: provision_master_def advance_ip_def)
qed

lemma provision_submit_success:
  assumes "get_next_ip ip = Inr ip1" "dotted_quad ip1"
    and "compute_status E (length (filter is_compute (calls w))) = 200"
  shows "\<exists>p. provision_submit E a sitename ss stor subnet fwd (Some sd) (Some ip) count w
              = (Inr (True, count + 1, Some ip1),
                 w\<lparr>calls := calls w @ [CreateCompute p 200],
                   ipMap := AList.update (node_name (workflowId a) sitename (hostNamePrefix sd) count)
                              ip1 (ipMap w)\<rparr>)
            \<and> touched sd ip1 p"
proof -
  from create_compute_success[OF assms(2,3), of count "leaseEndArg a" "workflowId a" sd
      "''NODENAME''" sitename ss stor subnet fwd]
  obtain p where p: "create_compute E (''Node'' @ str_nat count) (Some ip1) (leaseEndArg a)
        (workflowId a) sd count ''NODENAME'' sitename ss stor subnet fwd w
      = (Inr (200, node_name (workflowId a) sitename (hostNamePrefix sd) count, p),
         w\<lparr>calls := calls w @ [CreateCompute p 200],
           ipMap := AList.update (node_name (workflowId a) sitename (hostNamePrefix sd) count) ip1
                      (ipMap w)\<rparr>)"
      "touched sd ip1 p"
    by auto
  with assms(1) show ?thesis
    by (auto simp: provision_submit_def advance_ip_def)
qed

lemma provision_workers_step:
  assumes "get_next_ip ip = Inr ip1" "dotted_quad ip1"
    and "compute_status E (length (filter is_compute (calls w))) = 200"
  shows "\<exists>p. provision_workers E a sitename ss stor subnet fwd (Suc k) wdata old (Some ip) count w
              = provision_workers E a sitename ss stor subnet fwd k p
                  (node_name (workflowId a) sitename (hostNamePrefix wdata) count) (Some ip1)
                  (count + 1)
                  (w\<lparr>calls := calls w @ [CreateCompute p 200],
                     ipMap := AList.update
                                (node_name (workflowId a) sitename (hostNamePrefix wdata) count)
                                ip1 (ipMap w)\<rparr>)
            \<and> touched wdata ip1 p
            \<and> postBootScript p
                = map_option (render_script (workflowId a) old
                                (node_name (workflowId a) sitename (hostNamePrefix wdata) count)
                                ss fwd subnet (Some ip1)
                                (case get_default_ip_for_condor ip1 of Inl e \<Rightarrow> None | Inr x \<Rightarrow> Some x)
                                stor)
                    (postBootScript wdata)"
proof -
  from valid_address_helpers(1)[OF assms(2)] obtain x where x: "get_default_ip_for_condor ip1 = Inr x" ..
  define nm where "nm = node_name (workflowId a) sitename (hostNamePrefix wdata) count"
  define p where "p = (let m1 = wdata\<lparr>ipAddress := Some ip1\<rparr>;
                           m2 = (case leaseEndArg a of None \<Rightarrow> m1 | Some l \<Rightarrow> m1\<lparr>leaseEnd := Some l\<rparr>)
                       in case postBootScript m2 of None \<Rightarrow> m2
                          | Some s \<Rightarrow> m2\<lparr>postBootScript := Some (render_script (workflowId a) old nm
                                        ss fwd subnet (Some ip1) (Some x) stor s)\<rparr>)"
  have cc: "create_compute E (''Node'' @ str_nat count) (Some ip1) (leaseEndArg a)
        (workflowId a) wdata count old sitename ss stor subnet fwd w
      = (Inr (200, nm, p),
         w\<lparr>calls := calls w @ [CreateCompute p 200], ipMap := AList.update nm ip1 (ipMap w)\<rparr>)"
    using x assms(3)
    by (cases "hostNamePrefix wdata"; cases "leaseEndArg a"; cases "postBootScript wdata")
       (simp_all add: create_compute_def mb_create_compute_def record_call_def Let_def
          node_name_def nm_def p_def)
  have t: "touched wdata ip1 p"
    by (cases wdata) (simp add: p_def touched_def Let_def split: option.splits)
  have s: "postBootScript p
            = map_option (render_script (workflowId a) old nm ss fwd subnet (Some ip1) (Some x) stor)
                (postBootScript wdata)"
    by (cases wdata) (simp add: p_def Let_def split: option.splits)
  from cc assms(1) have "provision_workers E a sitename ss stor subnet fwd (Suc k) wdata old (Some ip) count w
      = provision_workers E a sitename ss stor subnet fwd k p nm (Some ip1) (count + 1)
          (w\<lparr>calls := calls w @ [CreateCompute p 200], ipMap := AList.update nm ip1 (ipMap w)\<rparr>)"
    by (simp add: advance_ip_def)
  with t s x show ?thesis unfolding nm_def by auto
qed

lemma last_str_nat: "last (str_nat n) = digit_char (n mod 10)"
  by (subst str_nat.simps) simp

lemma node_name_last: "last (node_name wfid s p count) = digit_char (count mod 10)"
  by (simp add: node_name_def last_str_nat str_nat_nonempty split: option.splits)

lemma digit_char_inj: "i < 10 \<Longrightarrow> j < 10 \<Longrightarrow> digit_char i = digit_char j \<Longrightarrow> i = j"
  using lt10_cases[of i] lt10_cases[of j] by (auto simp: digit_char_def)

lemma node_name_neq:
  "i < 10 \<Longrightarrow> j < 10 \<Longrightarrow> i \<noteq> j \<Longrightarrow> node_name wfid s p i \<noteq> node_name wfid' s' p' j"
  using node_name_last[of wfid s p i] node_name_last[of wfid' s' p' j] digit_char_inj[of i j]
  by auto

lemma ex_addr_valid:
  "dotted_quad ''10.0.0.11''" "dotted_quad ''10.0.0.12''"
  "dotted_quad ''10.0.0.13''" "dotted_quad ''10.0.0.14''"
  using is_valid_dotted_iff[of 10 0 0 11] is_valid_dotted_iff[of 10 0 0 12]
    is_valid_dotted_iff[of 10 0 0 13] is_valid_dotted_iff[of 10 0 0 14]
  by (simp_all add: dotted_def str_nat.simps digit_char_def)

text \<open>
  C2. A create run with only a chameleon-family site, two workers, start address
  \<open>10.0.0.10\<close>, no context-exchange host, the four shape files present and every remote
  creation answered 200: the run makes exactly five node creations, for the storage,
  master, submit and the two worker shapes in this order, with the addresses \<open>10.0.0.10\<close>
  to \<open>10.0.0.14\<close>; the allocation map ends with these five entries; the only other calls
  are the creation of the workflow and one status query, so no context-exchange call.
\<close>

theorem scenario_chameleon_only:
  assumes "operation a = ''create''"
    and "chameleonsite a = Some cs" "sublist ''Chameleon'' cs" "chdatadir a = Some d"
    and "chworkers a = Some 2" "chipStart a = Some ''10.0.0.10''"
    and "exogenisite a = None" "exoipStart a = None" "comethost a = None"
    and "shape_files E (d @ ''/storage.json'') = Some st"
    and "shape_files E (d @ ''/master.json'') = Some ms"
    and "shape_files E (d @ ''/submit.json'') = Some sb"
    and "shape_files E (d @ ''/worker.json'') = Some wk"
    and "create_workflow_status E = 200" "\<forall>k. compute_status E k = 200"
  shows "\<exists>p0 p1 p2 p3 p4.
           main fuel E a
             = Some (Exit 0,
                 \<lparr>calls = [CreateWorkflow, CreateCompute p0 200, CreateCompute p1 200,
                           CreateCompute p2 200, CreateCompute p3 200, CreateCompute p4 200,
                           GetWorkflow],
                  ipMap = [(node_name (workflowId a) cs (hostNamePrefix st) 0, ''10.0.0.10''),
                           (node_name (workflowId a) cs (hostNamePrefix ms) 1, ''10.0.0.11''),
                           (node_name (workflowId a) cs (hostNamePrefix sb) 2, ''10.0.0.12''),
                           (node_name (workflowId a) cs (hostNamePrefix wk) 3, ''10.0.0.13''),
                           (node_name (workflowId a) cs (hostNamePrefix wk) 4, ''10.0.0.14'')],
                  errors = []\<rparr>)
           \<and> assigned st cs ''10.0.0.10'' p0 \<and> assigned ms cs ''10.0.0.11'' p1
           \<and> assigned sb cs ''10.0.0.12'' p2 \<and> assigned wk cs ''10.0.0.13'' p3
           \<and> assigned wk cs ''10.0.0.14'' p4"
proof -
  let ?n0 = "node_name (workflowId a) cs (hostNamePrefix st) 0"
  let ?n1 = "node_name (workflowId a) cs (hostNamePrefix ms) 1"
  let ?n2 = "node_name (workflowId a) cs (hostNamePrefix sb) 2"
  let ?n3 = "node_name (workflowId a) cs (hostNamePrefix wk) 3"
  let ?n4 = "node_name (workflowId a) cs (hostNamePrefix wk) 4"
  let ?stor = "Some (?n0 @ ''.novalocal'')"
  note ok = assms(15)[rule_format]
  define w1 where "w1 = \<lparr>calls = [CreateWorkflow], ipMap = [], errors = []\<rparr>"
  have v: "validate_create a = Inr None"
    using assms(2-9) by (simp add: validate_create_def check_range_def ex_addr)
  have h: "read_stitch_hints E a = Inr (None, None, None)"
    using assms(7) by (simp add: read_stitch_hints_def)
  \<comment> \<open>storage\<close>
  from provision_storage_success[OF assms(10) ex_addr(1) ok, of a cs 0 None None None w1]
  obtain p0 where p0: "provision_storage E a d cs 0 (Some ''10.0.0.10'') None None None w1
      = (Inr (True, 1, Some ?n0),
         \<lparr>calls = [CreateWorkflow, CreateCompute p0 200], ipMap = [(?n0, ''10.0.0.10'')],
          errors = []\<rparr>)" "assigned st cs ''10.0.0.10'' p0"
    by (auto simp: w1_def)
  define w2 where "w2 = \<lparr>calls = [CreateWorkflow, CreateCompute p0 200],
                          ipMap = [(?n0, ''10.0.0.10'')], errors = []\<rparr>"
  have s2: "chameleon_storage E a None 0 w1 = (Inr (1, ?stor), w2)"
    using assms(2,4,6,8) p0(1) by (simp add: chameleon_storage_def cidr_opt_def w2_def)
  have s3: "exogeni_storage E a None None 1 w2 = (Inr (1, None), w2)"
    using assms(7) by (simp add: exogeni_storage_def)
  \<comment> \<open>master\<close>
  from provision_master_success[OF ex_addr(3) ex_addr_valid(1) ok,
      of a cs None "?n0 @ ''.novalocal''" None None "ms\<lparr>site := Some cs\<rparr>" 1 w2]
  obtain p1 where p1: "provision_master E a cs None ?stor None None (Some (ms\<lparr>site := Some cs\<rparr>))
        (Some ''10.0.0.10'') 1 w2
      = (Inr (True, 2, Some ''10.0.0.11''),
         \<lparr>calls = [CreateWorkflow, CreateCompute p0 200, CreateCompute p1 200],
          ipMap = [(?n0, ''10.0.0.10''), (?n1, ''10.0.0.11'')], errors = []\<rparr>)"
      "assigned ms cs ''10.0.0.11'' p1"
    by (auto simp: w2_def assigned_def node_name_neq)
  define w3 where "w3 = \<lparr>calls = [CreateWorkflow, CreateCompute p0 200, CreateCompute p1 200],
          ipMap = [(?n0, ''10.0.0.10''), (?n1, ''10.0.0.11'')], errors = []\<rparr>"
  \<comment> \<open>submit\<close>
  from provision_submit_success[OF ex_addr(4) ex_addr_valid(2) ok,
      of a cs None ?stor None None "sb\<lparr>site := Some cs\<rparr>" 2 w3]
  obtain p2 where p2: "provision_submit E a cs None ?stor None None (Some (sb\<lparr>site := Some cs\<rparr>))
        (Some ''10.0.0.11'') 2 w3
      = (Inr (True, 3, Some ''10.0.0.12''),
         \<lparr>calls = [CreateWorkflow, CreateCompute p0 200, CreateCompute p1 200, CreateCompute p2 200],
          ipMap = [(?n0, ''10.0.0.10''), (?n1, ''10.0.0.11''), (?n2, ''10.0.0.12'')],
          errors = []\<rparr>)"
      "assigned sb cs ''10.0.0.12'' p2"
    by (auto simp: w3_def assigned_def node_name_neq)
  define w4 where "w4 = \<lparr>calls = [CreateWorkflow, CreateCompute p0 200, CreateCompute p1 200,
                                   CreateCompute p2 200],
          ipMap = [(?n0, ''10.0.0.10''), (?n1, ''10.0.0.11''), (?n2, ''10.0.0.12'')],
          errors = []\<rparr>"
  \<comment> \<open>workers\<close>
  from provision_workers_step[OF ex_addr(5) ex_addr_valid(3) ok,
      of a cs None ?stor None None 1 "wk\<lparr>site := Some cs\<rparr>" "''NODENAME''" 3 w4]
  obtain p3 where p3: "provision_workers E a cs None ?stor None None (Suc 1) (wk\<lparr>site := Some cs\<rparr>)
        ''NODENAME'' (Some ''10.0.0.12'') 3 w4
      = provision_workers E a cs None ?stor None None 1 p3 ?n3 (Some ''10.0.0.13'') 4
         \<lparr>calls = [CreateWorkflow, CreateCompute p0 200, CreateCompute p1 200, CreateCompute p2 200,
                   CreateCompute p3 200],
          ipMap = [(?n0, ''10.0.0.10''), (?n1, ''10.0.0.11''), (?n2, ''10.0.0.12''),
                   (?n3, ''10.0.0.13'')],
          errors = []\<rparr>"
      "touched (wk\<lparr>site := Some cs\<rparr>) ''10.0.0.13'' p3"
    by (auto simp: w4_def node_name_neq)
  define w5 where "w5 = \<lparr>calls = [CreateWorkflow, CreateCompute p0 200, CreateCompute p1 200,
                                   CreateCompute p2 200, CreateCompute p3 200],
          ipMap = [(?n0, ''10.0.0.10''), (?n1, ''10.0.0.11''), (?n2, ''10.0.0.12''),
                   (?n3, ''10.0.0.13'')],
          errors = []\<rparr>"
  have hp3: "hostNamePrefix p3 = hostNamePrefix wk"
    using touched_prefix[OF p3(2)] by simp
  from provision_workers_step[OF ex_addr(6) ex_addr_valid(4) ok,
      of a cs None ?stor None None 0 p3 ?n3 4 w5]
  obtain p4 where p4: "provision_workers E a cs None ?stor None None (Suc 0) p3 ?n3
        (Some ''10.0.0.13'') 4 w5
      = (Inr (True, 5),
         \<lparr>calls = [CreateWorkflow, CreateCompute p0 200, CreateCompute p1 200, CreateCompute p2 200,
                   CreateCompute p3 200, CreateCompute p4 200],
          ipMap = [(?n0, ''10.0.0.10''), (?n1, ''10.0.0.11''), (?n2, ''10.0.0.12''),
                   (?n3, ''10.0.0.13''), (?n4, ''10.0.0.14'')],
          errors = []\<rparr>)"
      "touched p3 ''10.0.0.14'' p4"
    by (auto simp: w5_def node_name_neq hp3)
  define w6 where "w6 = \<lparr>calls = [CreateWorkflow, CreateCompute p0 200, CreateCompute p1 200,
                                   CreateCompute p2 200, CreateCompute p3 200, CreateCompute p4 200],
          ipMap = [(?n0, ''10.0.0.10''), (?n1, ''10.0.0.11''), (?n2, ''10.0.0.12''),
                   (?n3, ''10.0.0.13''), (?n4, ''10.0.0.14'')],
          errors = []\<rparr>"
  have c: "provision_condor_cluster E a d cs 1 (Some ''10.0.0.10'') (Some 2) ?stor None None None w2
             = (Inr (True, 5), w6)"
    using assms(11-13) p1(1) p2(1) p3(1) p4(1)
    by (simp add: provision_condor_cluster_def w3_def w4_def w5_def w6_def eval_nat_numeral)
  have s4: "chameleon_cluster E a None None ?stor 1 w2 = (Inr 5, w6)"
    using assms(2,4,5,6,8) c by (simp add: chameleon_cluster_def cidr_opt_def)
  have s5: "exogeni_cluster E a None None 5 w6 = (Inr 5, w6)"
    using assms(7) by (simp add: exogeni_cluster_def)
  have f: "finish_create fuel E a None w6
             = Some (Exit 0, w6\<lparr>calls := calls w6 @ [GetWorkflow]\<rparr>)"
    using assms(9)
    by (simp add: finish_create_def mb_get_workflow_def stitching_def record_call_def)
  have "main fuel E a = Some (Exit 0, w6\<lparr>calls := calls w6 @ [GetWorkflow]\<rparr>)"
    using assms(1,14) v h s2 s3 s4 s5 f
    by (simp add: main_def main_create_def world0_def record_call_def w1_def)
  moreover have "assigned wk cs ''10.0.0.13'' p3" "assigned wk cs ''10.0.0.14'' p4"
    using p3(2) touched_trans[OF p3(2) p4(2)] by (simp_all add: assigned_def)
  ultimately show ?thesis
    using p0(2) p1(2) p2(2) by (auto simp: w6_def)
qed

theorem scenario_chameleon_only_witness:
  "main 0 (ex_env (\<lambda>k. 200)) ex_args
     = Some (Exit 0,
         \<lparr>calls = [CreateWorkflow,
                   CreateCompute (ex_shape (Some ''storage'') None
                     \<lparr>site := Some ''Chameleon:CHI@UC'', ipAddress := Some ''10.0.0.10''\<rparr>) 200,
                   CreateCompute (ex_shape (Some ''master'') (Some ''id=wf1 me=wf1-master1 ip=10.0.0.11'')
                     \<lparr>site := Some ''Chameleon:CHI@UC'', ipAddress := Some ''10.0.0.11''\<rparr>) 200,
                   CreateCompute (ex_shape (Some ''submit'') None
                     \<lparr>site := Some ''Chameleon:CHI@UC'', ipAddress := Some ''10.0.0.12''\<rparr>) 200,
                   CreateCompute (ex_shape (Some ''w'') (Some ''id=wf1 me=wf1-w3 ip=10.0.0.13'')
                     \<lparr>site := Some ''Chameleon:CHI@UC'', ipAddress := Some ''10.0.0.13''\<rparr>) 200,
                   CreateCompute (ex_shape (Some ''w'') (Some ''id=wf1 me=wf1-w4 ip=10.0.0.13'')
                     \<lparr>site := Some ''Chameleon:CHI@UC'', ipAddress := Some ''10.0.0.14''\<rparr>) 200,
                   GetWorkflow],
          ipMap = [(''wf1-storage0'', ''10.0.0.10''), (''wf1-master1'', ''10.0.0.11''),
                   (''wf1-submit2'', ''10.0.0.12''), (''wf1-w3'', ''10.0.0.13''),
                   (''wf1-w4'', ''10.0.0.14'')],
          errors = []\<rparr>)"
proof -
  have f: "shape_files (ex_env (\<lambda>k. 200)) (''data'' @ ''/storage.json'') = Some (ex_shape (Some ''storage'') None)"
    "shape_files (ex_env (\<lambda>k. 200)) (''data'' @ ''/master.json'')
       = Some (ex_shape (Some ''master'') (Some ''id=WORKFLOW me=NODENAME ip=IPADDR''))"
    "shape_files (ex_env (\<lambda>k. 200)) (''data'' @ ''/submit.json'') = Some (ex_shape (Some ''submit'') None)"
    "shape_files (ex_env (\<lambda>k. 200)) (''data'' @ ''/worker.json'')
       = Some (ex_shape (Some ''w'') (Some ''id=WORKFLOW me=NODENAME ip=IPADDR''))"
    by (simp_all add: ex_env_def ex_files_def)
  have a: "operation ex_args = ''create''" "chameleonsite ex_args = Some ''Chameleon:CHI@UC''"
    "sublist ''Chameleon'' ''Chameleon:CHI@UC''" "chdatadir ex_args = Some ''data''"
    "chworkers ex_args = Some 2" "chipStart ex_args = Some ''10.0.0.10''"
    "exogenisite ex_args = None" "exoipStart ex_args = None" "comethost ex_args = None"
    by (simp_all add: ex_args_def sublist_code)
  have e: "create_workflow_status (ex_env (\<lambda>k. 200)) = 200"
    "\<forall>k. compute_status (ex_env (\<lambda>k. 200)) k = 200"
    by (simp_all add: ex_env_def)
  have m: "main 0 (ex_env (\<lambda>k. 200)) ex_args
     = Some (Exit 0,
         \<lparr>calls = [CreateWorkflow,
                   CreateCompute (ex_shape (Some ''storage'') None
                     \<lparr>site := Some ''Chameleon:CHI@UC'', ipAddress := Some ''10.0.0.10''\<rparr>) 200,
                   CreateCompute (ex_shape (Some ''master'') (Some ''id=wf1 me=wf1-master1 ip=10.0.0.11'')
                     \<lparr>site := Some ''Chameleon:CHI@UC'', ipAddress := Some ''10.0.0.11''\<rparr>) 200,
                   CreateCompute (ex_shape (Some ''submit'') None
                     \<lparr>site := Some ''Chameleon:CHI@UC'', ipAddress := Some ''10.0.0.12''\<rparr>) 200,
                   CreateCompute (ex_shape (Some ''w'') (Some ''id=wf1 me=wf1-w3 ip=10.0.0.13'')
                     \<lparr>site := Some ''Chameleon:CHI@UC'', ipAddress := Some ''10.0.0.13''\<rparr>) 200,
                   CreateCompute (ex_shape (Some ''w'') (Some ''id=wf1 me=wf1-w4 ip=10.0.0.13'')
                     \<lparr>site := Some ''Chameleon:CHI@UC'', ipAddress := Some ''10.0.0.14''\<rparr>) 200,
                   GetWorkflow],
          ipMap = [(''wf1-storage0'', ''10.0.0.10''), (''wf1-master1'', ''10.0.0.11''),
                   (''wf1-submit2'', ''10.0.0.12''), (''wf1-w3'', ''10.0.0.13''),
                   (''wf1-w4'', ''10.0.0.14'')],
          errors = []\<rparr>)"
    by (simp add: main_def validate_create_def check_range_def ex_args_def ex_addr
        main_create_def read_stitch_hints_def chameleon_storage_def cidr_opt_def
        provision_storage_def create_compute_def mb_create_compute_def record_call_def
        exogeni_storage_def chameleon_cluster_def provision_condor_cluster_def
        provision_master_def provision_submit_def advance_ip_def get_default_ip_for_condor_def
        exogeni_cluster_def finish_create_def mb_get_workflow_def stitching_def
        render_script_def py_replace_def str_opt_def eval_nat_numeral
        ex_env_def ex_files_def ex_shape_def world0_def Let_def
        str_nat.simps digit_char_def sublist_code)
  from scenario_chameleon_only[OF a f e, of 0] m show ?thesis by simp
qed

section \<open>The forward address of the exogeni cluster\<close>








section \<open>Stitching coordinator: the claims\<close>






section \<open>The worker loop and its one shape\<close>



lemma payloads_append [simp]: "payloads (xs @ ys) = payloads xs @ payloads ys"
  by (induction xs rule: payloads.induct) auto












lemma no_token_letter_None: "no_token_letter ''None''" "no_token_letter ''Node''"
  by (simp_all add: no_token_letter_def)

















end
